theory Spec2Isabelle
  imports Main
begin

section \<open>Data model (models/ValentineModel.js)\<close>

text \<open>
  A JavaScript number is a double. The numbers of the application state are integers, and
  the model holds them as integers: \<open>naughtyLevel\<close>, \<open>heartClicks\<close> and \<open>likes\<close> have the
  type \<open>int\<close>. Every double of magnitude up to \<open>2^53\<close> is such an integer, and beyond
  \<open>2^53\<close> every double is an integer, so the sum of two of them is the exact sum rounded
  to the nearest double (\<open>js_plus\<close>, below). The one place where an operation leaves the
  integers is the remainder in \<open>changePhoto\<close>: \<open>x % 0\<close> is \<open>NaN\<close> in JavaScript and
  nothing is thrown. The field that receives that result, \<open>currentPhotoIndex\<close>, therefore
  has the type \<open>jsnum\<close>, an integer or \<open>NaN\<close>, and the arithmetic on it propagates \<open>NaN\<close>
  as JavaScript does. An index is smaller than the length of an array, which is below
  \<open>2^32\<close>, and the sums on it are exact.

  Strings are byte lists: the UTF-8 encoding of the JavaScript string. The program
  compares strings with \<open>===\<close> and tests them for emptiness, and both are the same on the
  encoding.
\<close>

datatype jsnum = Num int | NaN

fun js_add :: "jsnum \<Rightarrow> jsnum \<Rightarrow> jsnum" where
  "js_add (Num a) (Num b) = Num (a + b)"
| "js_add _ _ = NaN"

fun js_sub :: "jsnum \<Rightarrow> jsnum \<Rightarrow> jsnum" where
  "js_sub (Num a) (Num b) = Num (a - b)"
| "js_sub _ _ = NaN"

text \<open>
  The remainder operator \<open>%\<close>: the result has the sign of the dividend (truncated
  division), and a zero divisor gives \<open>NaN\<close>.
\<close>

definition trunc_rem :: "int \<Rightarrow> int \<Rightarrow> int" where
  "trunc_rem a b = sgn a * (\<bar>a\<bar> mod \<bar>b\<bar>)"

fun js_rem :: "jsnum \<Rightarrow> jsnum \<Rightarrow> jsnum" where
  "js_rem (Num a) (Num b) = (if b = 0 then NaN else Num (trunc_rem a b))"
| "js_rem _ _ = NaN"

text \<open>
  The sum of two integer-valued doubles. \<open>round_double\<close> rounds an integer to the nearest
  double, a tie to the one with the even significand (53 bits): \<open>bitlen\<close> is the number of
  bits of the magnitude, \<open>e\<close> the number of bits that do not fit, \<open>q\<close> the significand and
  \<open>r\<close> what is cut off. Up to \<open>2^53\<close> nothing is cut off; \<open>2^53 + 1\<close> is rounded to
  \<open>2^53\<close>. A sum beyond the largest double (about \<open>1.8 * 10^308\<close>) is \<open>Infinity\<close> in
  JavaScript; the model has no infinity and is exact below that only.
  \<open>safe_integer\<close> is \<open>Number.isSafeInteger\<close>.
\<close>

fun bitlen :: "nat \<Rightarrow> nat" where
  "bitlen n = (if n = 0 then 0 else Suc (bitlen (n div 2)))"

declare bitlen.simps [simp del]

definition round_mag :: "nat \<Rightarrow> nat" where
  "round_mag m =
     (let e = bitlen m - 53;
          q = m div 2 ^ e;
          r = m mod 2 ^ e;
          half = 2 ^ (e - 1);
          q' = (if r > half \<or> (r = half \<and> odd q) then q + 1 else q)
      in q' * 2 ^ e)"

definition round_double :: "int \<Rightarrow> int" where
  "round_double x = (if \<bar>x\<bar> \<le> 2 ^ 53 then x else sgn x * int (round_mag (nat \<bar>x\<bar>)))"

definition js_plus :: "int \<Rightarrow> int \<Rightarrow> int" where
  "js_plus a b = round_double (a + b)"

definition safe_integer :: "int \<Rightarrow> bool" where
  "safe_integer n = (\<bar>n\<bar> \<le> 9007199254740991)"

text \<open>The exceptions of the runtime that the model has.\<close>

datatype js_error = TypeError | SyntaxError

record photo =
  id_photo :: string
  url :: string
  caption :: string
  likes :: int
  isFavorite :: bool

record state =
  currentView :: string
  photos :: "photo list"
  naughtyLevel :: int
  heartClicks :: int
  showConfetti :: bool
  currentPhotoIndex :: jsnum

text \<open>
  The captions of the three seed photos, byte for byte as the source file has them (the
  file stores a doubly encoded emoji in front of each text).
\<close>

definition caption1 :: string where
  "caption1 = [CHR 0xC3, CHR 0xB0, CHR 0xC5, CHR 0xB8, CHR 0xCB, CHR 0x9C, CHR 0xCB, CHR 0x86]
     @ '' That time you made my heart race...''"

definition caption2 :: string where
  "caption2 = [CHR 0xC3, CHR 0xB0, CHR 0xC5, CHR 0xB8, CHR 0xE2, CHR 0x80, CHR 0x99,
               CHR 0xE2, CHR 0x80, CHR 0xA2]
     @ '' You look so good, it should be illegal''"

definition caption3 :: string where
  "caption3 = [CHR 0xC3, CHR 0xB0, CHR 0xC5, CHR 0xB8, CHR 0xE2, CHR 0x80, CHR 0x9D,
               CHR 0xC2, CHR 0xA5]
     @ '' My personal snack''"

definition ValentineModel :: state where
  "ValentineModel =
     \<lparr> currentView = ''home'',
       photos =
         [ \<lparr> id_photo = ''1'', url = ''/src/assets/photos/DakogKaon.jpg'',
             caption = caption1, likes = 0, isFavorite = False \<rparr>,
           \<lparr> id_photo = ''2'', url = ''/src/assets/photos/Tabian.jpeg'',
             caption = caption2, likes = 0, isFavorite = False \<rparr>,
           \<lparr> id_photo = ''3'', url = ''/src/assets/photos/WowGwapa.jpeg'',
             caption = caption3, likes = 0, isFavorite = False \<rparr> ],
       naughtyLevel = 0,
       heartClicks = 0,
       showConfetti = False,
       currentPhotoIndex = Num 0 \<rparr>"

text \<open>\<open>createInitialState\<close> copies the model and each photo; on values the copy is equal.\<close>

definition createInitialState :: state where
  "createInitialState = ValentineModel \<lparr> photos := map (\<lambda>photo. photo) (photos ValentineModel) \<rparr>"

text \<open>\<open>ValidationRules.isValidPhoto\<close>; the \<open>typeof\<close> tests hold by typing.\<close>

definition isValidPhoto :: "photo \<Rightarrow> bool" where
  "isValidPhoto photo = (length (url photo) > 0)"


section \<open>Controller (class ValentineController, in views/HomePage.jsx)\<close>

text \<open>
  Every method of the controller hands React's \<open>setState\<close> an updater
  \<open>prevState => newState\<close>. A method is modelled as that updater: a function from the
  previous state to the next one. \<open>{...prevState, f: v}\<close> is the record update
  \<open>prevState\<lparr>f := v\<rparr>\<close>. A method that logs with \<open>console.error\<close> and returns before
  calling \<open>setState\<close> returns the logged line together with the unchanged state.
  \<open>+\<close> on numbers is \<open>js_plus\<close>, \<open>Math.min\<close> is \<open>min\<close>.
\<close>

definition validViews :: "string list" where
  "validViews = [''home'', ''gallery'', ''naughty'']"

definition navigateTo :: "string \<Rightarrow> state \<Rightarrow> string option \<times> state" where
  "navigateTo viewName prevState =
     (if viewName \<notin> set validViews
      then (Some (''Invalid view: '' @ viewName), prevState)
      else (None, prevState \<lparr> currentView := viewName \<rparr>))"

definition goBack :: "state \<Rightarrow> state" where
  "goBack prevState =
     (let previousView = (if currentView prevState = ''naughty'' then ''gallery'' else ''home'')
      in prevState \<lparr> currentView := previousView \<rparr>)"

definition likePhoto :: "string \<Rightarrow> state \<Rightarrow> state" where
  "likePhoto photoId prevState =
     (let updatedPhotos =
            map (\<lambda>photo. if id_photo photo = photoId
                          then photo \<lparr> likes := js_plus (likes photo) 1 \<rparr>
                          else photo)
                (photos prevState);
          newNaughtyLevel = min (js_plus (naughtyLevel prevState) 5) 100
      in prevState \<lparr> photos := updatedPhotos,
                      naughtyLevel := newNaughtyLevel,
                      heartClicks := js_plus (heartClicks prevState) 1 \<rparr>)"

definition toggleFavorite :: "string \<Rightarrow> state \<Rightarrow> state" where
  "toggleFavorite photoId prevState =
     prevState \<lparr> photos :=
       map (\<lambda>photo. if id_photo photo = photoId
                     then photo \<lparr> isFavorite := \<not> isFavorite photo \<rparr>
                     else photo)
           (photos prevState) \<rparr>"

definition changePhoto :: "string \<Rightarrow> state \<Rightarrow> state" where
  "changePhoto direction prevState =
     (let totalPhotos = Num (int (length (photos prevState)));
          newIndex = currentPhotoIndex prevState;
          newIndex =
            (if direction = ''next'' then js_rem (js_add newIndex (Num 1)) totalPhotos
             else if direction = ''prev''
               then js_rem (js_add (js_sub newIndex (Num 1)) totalPhotos) totalPhotos
             else newIndex)
      in prevState \<lparr> currentPhotoIndex := newIndex \<rparr>)"

text \<open>
  \<open>increaseNaughtyLevel(amount = 10)\<close>: the argument is optional, \<open>None\<close> is the call
  without an argument.
\<close>

definition increaseNaughtyLevel :: "int option \<Rightarrow> state \<Rightarrow> state" where
  "increaseNaughtyLevel amountArg prevState =
     (let amount = (case amountArg of None \<Rightarrow> 10 | Some a \<Rightarrow> a);
          newLevel = min (js_plus (naughtyLevel prevState) amount) 100;
          showConfetti' = (newLevel \<ge> 50 \<and> naughtyLevel prevState < 50)
      in prevState \<lparr> naughtyLevel := newLevel, showConfetti := showConfetti' \<rparr>)"

definition resetNaughtyLevel :: "state \<Rightarrow> state" where
  "resetNaughtyLevel prevState = prevState \<lparr> naughtyLevel := 0, showConfetti := False \<rparr>"

definition handleHeartClick :: "state \<Rightarrow> state" where
  "handleHeartClick prevState =
     (let newClicks = js_plus (heartClicks prevState) 1;
          newNaughtyLevel = min (js_plus (naughtyLevel prevState) 3) 100;
          showConfetti' = (trunc_rem newClicks 10 = 0)
      in prevState \<lparr> heartClicks := newClicks,
                      naughtyLevel := newNaughtyLevel,
                      showConfetti := showConfetti' \<rparr>)"

definition hideConfetti :: "state \<Rightarrow> state" where
  "hideConfetti prevState = prevState \<lparr> showConfetti := False \<rparr>"

text \<open>
  \<open>addPhoto(photoData)\<close>: \<open>photoData\<close> has a \<open>url\<close> and may have a \<open>caption\<close>;
  \<open>photoData.caption || default\<close> takes the default for a missing and for an empty
  caption. The argument \<open>newId\<close> is the string that \<open>Date.now().toString()\<close> returns when
  the method runs. The default caption is the emoji of the source, U+1F495, in UTF-8.
\<close>

record photoData =
  data_url :: string
  data_caption :: "string option"

definition default_caption :: string where
  "default_caption = [CHR 0xF0, CHR 0x9F, CHR 0x92, CHR 0x95]"

definition addPhoto :: "string \<Rightarrow> photoData \<Rightarrow> state \<Rightarrow> string option \<times> state" where
  "addPhoto newId photoData prevState =
     (let newPhoto =
            \<lparr> id_photo = newId,
              url = data_url photoData,
              caption = (case data_caption photoData of
                           None \<Rightarrow> default_caption
                         | Some c \<Rightarrow> if c = [] then default_caption else c),
              likes = 0,
              isFavorite = False \<rparr>
      in if \<not> isValidPhoto newPhoto then (Some ''Invalid photo data'', prevState)
         else (None, prevState \<lparr> photos := photos prevState @ [newPhoto] \<rparr>))"

text \<open>The index is an integer within the photo list.\<close>

definition index_in_range :: "state \<Rightarrow> bool" where
  "index_in_range s =
     (case currentPhotoIndex s of
        Num i \<Rightarrow> 0 \<le> i \<and> i < int (length (photos s))
      | NaN \<Rightarrow> False)"


section \<open>Gallery view (views/GalleryView.jsx, as App.jsx uses it)\<close>

text \<open>
  \<open>GalleryView\<close> renders the controls of the gallery and binds a handler of the
  controller to each. The model gives, for a state and a control, the handler that the
  rendered view has bound to it, or \<open>None\<close> when the view does not offer the control. The
  handlers are the ones \<open>App.jsx\<close> passes: \<open>onNext\<close> is \<open>changePhoto("next")\<close>, \<open>onPrev\<close> is
  \<open>changePhoto("prev")\<close>, \<open>onLike\<close> is \<open>likePhoto\<close>, \<open>onToggleFavorite\<close> is
  \<open>toggleFavorite\<close>, \<open>onClose\<close> is \<open>navigateTo("home")\<close> and \<open>onOpenNaughty\<close> is
  \<open>navigateTo("naughty")\<close>.

  The view starts with a guard: with no photos it returns a page that has the back button
  only, before it reads the current photo and before it binds the buttons and the swipe
  callbacks. Otherwise it reads \<open>photos[currentIndex]\<close>; at an index outside the list that
  is \<open>undefined\<close>, and rendering throws a \<open>TypeError\<close> on its first property. The previous
  button is disabled on the first photo and the next button on the last one; the swipes
  are not. A swipe control stands for a gesture that the recogniser has classified.
\<close>

datatype control =
    BackButton
  | FavoriteButton
  | PrevButton
  | LikeButton
  | NaughtyButton
  | NextButton
  | PhotoDoubleClick
  | PhotoSwipeLeft
  | PhotoSwipeRight
  | PhotoSwipeUp

definition onClose :: "state \<Rightarrow> state" where
  "onClose s = snd (navigateTo ''home'' s)"

definition onOpenNaughty :: "state \<Rightarrow> state" where
  "onOpenNaughty s = snd (navigateTo ''naughty'' s)"

definition GalleryView :: "state \<Rightarrow> js_error + (control \<Rightarrow> (state \<Rightarrow> state) option)" where
  "GalleryView s =
     (if length (photos s) = 0 then
        Inr (\<lambda>c. if c = BackButton then Some onClose else None)
      else
        (case currentPhotoIndex s of
           NaN \<Rightarrow> Inl TypeError
         | Num currentIndex \<Rightarrow>
             if currentIndex < 0 \<or> int (length (photos s)) \<le> currentIndex then Inl TypeError
             else
               (let currentPhoto = photos s ! nat currentIndex;
                    isFirstPhoto = (currentIndex = 0);
                    isLastPhoto = (currentIndex = int (length (photos s)) - 1)
                in Inr (\<lambda>c. case c of
                      BackButton \<Rightarrow> Some onClose
                    | FavoriteButton \<Rightarrow> Some (toggleFavorite (id_photo currentPhoto))
                    | PrevButton \<Rightarrow> if isFirstPhoto then None else Some (changePhoto ''prev'')
                    | LikeButton \<Rightarrow> Some (likePhoto (id_photo currentPhoto))
                    | NaughtyButton \<Rightarrow> Some onOpenNaughty
                    | NextButton \<Rightarrow> if isLastPhoto then None else Some (changePhoto ''next'')
                    | PhotoDoubleClick \<Rightarrow> Some (likePhoto (id_photo currentPhoto))
                    | PhotoSwipeLeft \<Rightarrow> Some (changePhoto ''next'')
                    | PhotoSwipeRight \<Rightarrow> Some (changePhoto ''prev'')
                    | PhotoSwipeUp \<Rightarrow> Some onOpenNaughty))))"

text \<open>
  What a user action on a control does to the state: the bound handler runs, and a control
  that the view does not offer, or a view that did not render, leaves the state as it is.
\<close>

definition gallery_action :: "control \<Rightarrow> state \<Rightarrow> state" where
  "gallery_action c s =
     (case GalleryView s of
        Inl error \<Rightarrow> s
      | Inr bound \<Rightarrow> (case bound c of None \<Rightarrow> s | Some h \<Rightarrow> h s))"


section \<open>Swipe recogniser (hooks/useSwipe.js)\<close>

text \<open>
  The hook keeps four refs and returns three handlers. A handler is a function on the
  refs. Coordinates are integers (pixels). \<open>e.touches[0]\<close> of an event without a touch
  is \<open>undefined\<close>, and reading \<open>clientX\<close> from it throws a \<open>TypeError\<close>: the handlers
  return a sum, \<open>Inl\<close> the error.

  A callback is a function on whatever the callbacks act on (type \<open>'w\<close>); each of the four
  is optional, and \<open>callbacks.onSwipeLeft?.()\<close> calls it only when it is there.
\<close>

record touch =
  clientX :: int
  clientY :: int

record touch_event =
  touches :: "touch list"
  changedTouches :: "touch list"

record swipe_refs =
  touchStartX :: int
  touchStartY :: int
  touchEndX :: int
  touchEndY :: int

record 'w callbacks =
  onSwipeLeft :: "('w \<Rightarrow> 'w) option"
  onSwipeRight :: "('w \<Rightarrow> 'w) option"
  onSwipeUp :: "('w \<Rightarrow> 'w) option"
  onSwipeDown :: "('w \<Rightarrow> 'w) option"

definition optional_call :: "('w \<Rightarrow> 'w) option \<Rightarrow> 'w \<Rightarrow> 'w" where
  "optional_call f w = (case f of None \<Rightarrow> w | Some g \<Rightarrow> g w)"

definition handleTouchStart :: "touch_event \<Rightarrow> swipe_refs \<Rightarrow> js_error + swipe_refs" where
  "handleTouchStart e refs =
     (case touches e of
        [] \<Rightarrow> Inl TypeError
      | t # _ \<Rightarrow> Inr (refs \<lparr> touchStartX := clientX t, touchStartY := clientY t \<rparr>))"

definition handleTouchMove :: "touch_event \<Rightarrow> swipe_refs \<Rightarrow> js_error + swipe_refs" where
  "handleTouchMove e refs =
     (case touches e of
        [] \<Rightarrow> Inl TypeError
      | t # _ \<Rightarrow> Inr (refs \<lparr> touchEndX := clientX t, touchEndY := clientY t \<rparr>))"

definition handleTouchEnd ::
  "'w callbacks \<Rightarrow> int \<Rightarrow> touch_event \<Rightarrow> swipe_refs \<times> 'w \<Rightarrow> js_error + swipe_refs \<times> 'w" where
  "handleTouchEnd callbacks minSwipeDistance e rw =
     (case changedTouches e of
        [] \<Rightarrow> Inl TypeError
      | t # _ \<Rightarrow>
          (let refs = fst rw \<lparr> touchEndX := clientX t, touchEndY := clientY t \<rparr>;
               w = snd rw;
               deltaX = touchEndX refs - touchStartX refs;
               deltaY = touchEndY refs - touchStartY refs;
               absDeltaX = \<bar>deltaX\<bar>;
               absDeltaY = \<bar>deltaY\<bar>
           in Inr (refs,
                if absDeltaX > absDeltaY then
                  (if absDeltaX > minSwipeDistance then
                     (if deltaX > 0 then optional_call (onSwipeRight callbacks) w
                      else optional_call (onSwipeLeft callbacks) w)
                   else w)
                else
                  (if absDeltaY > minSwipeDistance then
                     (if deltaY > 0 then optional_call (onSwipeDown callbacks) w
                      else optional_call (onSwipeUp callbacks) w)
                   else w))))"

text \<open>
  The decision procedure of the specification, to compare the handler with: \<open>t\<close> is the
  threshold, \<open>dx\<close> and \<open>dy\<close> the differences between end and start. \<open>spec_decision\<close> is
  the decision table with one row for each direction, \<open>spec_md_decision\<close> the procedure
  in the words of the specification's section 4.1 (Right if \<open>dx > 0\<close> else Left; Down if
  \<open>dy > 0\<close> else Up).
  \<open>fire\<close> calls the handler registered for the chosen direction, if there is one.
\<close>

datatype direction = SwipeLeft | SwipeRight | SwipeUp | SwipeDown

definition spec_md_decision :: "int \<Rightarrow> int \<Rightarrow> int \<Rightarrow> direction option" where
  "spec_md_decision t dx dy =
     (let adx = \<bar>dx\<bar>; ady = \<bar>dy\<bar>
      in if adx > ady \<and> adx > t then Some (if dx > 0 then SwipeRight else SwipeLeft)
         else if ady > t then Some (if dy > 0 then SwipeDown else SwipeUp)
         else None)"

definition spec_decision :: "int \<Rightarrow> int \<Rightarrow> int \<Rightarrow> direction option" where
  "spec_decision t dx dy =
     (let adx = \<bar>dx\<bar>; ady = \<bar>dy\<bar>
      in if adx > ady \<and> adx > t \<and> dx > 0 then Some SwipeRight
         else if adx > ady \<and> adx > t \<and> dx < 0 then Some SwipeLeft
         else if adx \<le> ady \<and> ady > t \<and> dy > 0 then Some SwipeDown
         else if adx \<le> ady \<and> ady > t \<and> dy < 0 then Some SwipeUp
         else None)"

fun handler :: "'w callbacks \<Rightarrow> direction \<Rightarrow> ('w \<Rightarrow> 'w) option" where
  "handler cbs SwipeLeft = onSwipeLeft cbs"
| "handler cbs SwipeRight = onSwipeRight cbs"
| "handler cbs SwipeUp = onSwipeUp cbs"
| "handler cbs SwipeDown = onSwipeDown cbs"

fun fire :: "'w callbacks \<Rightarrow> direction option \<Rightarrow> 'w \<Rightarrow> 'w" where
  "fire cbs None w = w"
| "fire cbs (Some d) w = optional_call (handler cbs d) w"

text \<open>Four callbacks that append their name to a log, to observe which one ran.\<close>

definition logging_callbacks :: "string list callbacks" where
  "logging_callbacks =
     \<lparr> onSwipeLeft = Some (\<lambda>log. log @ [''left'']),
       onSwipeRight = Some (\<lambda>log. log @ [''right'']),
       onSwipeUp = Some (\<lambda>log. log @ [''up'']),
       onSwipeDown = Some (\<lambda>log. log @ [''down'']) \<rparr>"


section \<open>JSON.stringify and JSON.parse\<close>

text \<open>
  The persistence hook calls the built-ins \<open>JSON.stringify\<close> and \<open>JSON.parse\<close> of the
  JavaScript runtime; they are not code of the repository. They are modelled after
  ECMA-262 (SerializeJSONProperty, QuoteJSONString and the JSON grammar) on the values that
  the application state is made of: \<open>null\<close>, booleans, numbers (an integer or \<open>NaN\<close>),
  strings, arrays and objects. An object is the list of its properties in creation order.

  The model covers a part of what the built-ins accept, and says so where it ends:
  \<^item> numbers are the integers up to \<open>2^53\<close> in magnitude, which JavaScript writes digit by
    digit and reads exactly; a larger number (written with the shortest digits that round
    to it, from \<open>10^21\<close> on with an exponent), a text with a fraction or an exponent, and
    \<open>-0\<close> are beyond the model;
  \<^item> a \<open>\u\<close> escape of a lone surrogate gives a string that has no UTF-8 encoding, and is
    beyond the model;
  \<^item> a property name that is an array index is ordered before the others by JavaScript,
    and an object with such a name is beyond the model.

  \<open>JSON_stringify\<close> and \<open>JSON_parse\<close> return \<open>None\<close> on what is beyond the model: the model
  then says nothing about the result of the built-in. \<open>JSON_parse\<close> returns
  \<open>Some (Inl SyntaxError)\<close> where \<open>JSON.parse\<close> throws and \<open>Some (Inr v)\<close> where it returns
  \<open>v\<close>.
\<close>

datatype jsval =
    JNull
  | JBool bool
  | JNumber jsnum
  | JString string
  | JArray "jsval list"
  | JObject "(string \<times> jsval) list"

subsection \<open>Characters and digits\<close>

definition is_digit :: "char \<Rightarrow> bool" where
  "is_digit c = (48 \<le> (of_char c :: nat) \<and> (of_char c :: nat) \<le> 57)"

definition digit_val :: "char \<Rightarrow> nat" where
  "digit_val c = of_char c - 48"

definition nat_of_digits :: "string \<Rightarrow> nat" where
  "nat_of_digits ds = foldl (\<lambda>a c. 10 * a + digit_val c) 0 ds"

definition digit_char :: "nat \<Rightarrow> char" where
  "digit_char d = char_of (48 + d)"

fun string_of_nat :: "nat \<Rightarrow> string" where
  "string_of_nat n =
     (if n < 10 then [digit_char n] else string_of_nat (n div 10) @ [digit_char (n mod 10)])"

declare string_of_nat.simps [simp del]

definition starts_with :: "char \<Rightarrow> string \<Rightarrow> bool" where
  "starts_with c s = (case s of [] \<Rightarrow> False | d # _ \<Rightarrow> d = c)"

text \<open>
  An array index as a property name: the decimal digits, without a leading zero, of an
  integer below \<open>2^32 - 1\<close>.
\<close>

definition is_array_index :: "string \<Rightarrow> bool" where
  "is_array_index k =
     (k \<noteq> [] \<and> list_all is_digit k \<and> \<not> (length k > 1 \<and> starts_with CHR ''0'' k)
      \<and> nat_of_digits k < 4294967295)"

text \<open>The values that the model of the two built-ins covers.\<close>

fun modelled :: "jsval \<Rightarrow> bool" where
  "modelled (JNumber NaN) = True"
| "modelled (JNumber (Num i)) = (\<bar>i\<bar> \<le> 2 ^ 53)"
| "modelled (JArray vs) = list_all modelled vs"
| "modelled (JObject kvs) =
     (distinct (map fst kvs)
      \<and> list_all (\<lambda>kv. \<not> is_array_index (fst kv) \<and> modelled (snd kv)) kvs)"
| "modelled _ = True"

subsection \<open>JSON.stringify\<close>

text \<open>
  \<open>QuoteJSONString\<close> escapes the quote, the backslash and the control characters below
  \<open>0x20\<close> (five of them by a letter, the others as \<open>\u00XX\<close> in lower-case hexadecimal)
  and copies every other character. A number that is not finite is written as \<open>null\<close>, an
  integer of the model with its decimal digits (\<open>digits_of_int\<close>). Without an indent
  argument no white space is written. \<open>json_text\<close> is the text of a value of the model.
\<close>

definition digits_of_int :: "int \<Rightarrow> string" where
  "digits_of_int i = (if i < 0 then CHR ''-'' # string_of_nat (nat (- i)) else string_of_nat (nat i))"

definition hex_char :: "nat \<Rightarrow> char" where
  "hex_char d = (if d < 10 then char_of (48 + d) else char_of (87 + d))"

definition quote_char :: "char \<Rightarrow> string" where
  "quote_char c =
     (if c = CHR 0x08 then [CHR 0x5C, CHR ''b'']
      else if c = CHR 0x09 then [CHR 0x5C, CHR ''t'']
      else if c = CHR 0x0A then [CHR 0x5C, CHR ''n'']
      else if c = CHR 0x0C then [CHR 0x5C, CHR ''f'']
      else if c = CHR 0x0D then [CHR 0x5C, CHR ''r'']
      else if c = CHR 0x22 then [CHR 0x5C, CHR 0x22]
      else if c = CHR 0x5C then [CHR 0x5C, CHR 0x5C]
      else if (of_char c :: nat) < 0x20
        then [CHR 0x5C, CHR ''u'', CHR ''0'', CHR ''0'', hex_char (of_char c div 16), hex_char (of_char c mod 16)]
      else [c])"

definition QuoteJSONString :: "string \<Rightarrow> string" where
  "QuoteJSONString s = CHR 0x22 # concat (map quote_char s) @ [CHR 0x22]"

fun join :: "string list \<Rightarrow> string" where
  "join [] = []"
| "join [x] = x"
| "join (x # y # ys) = x @ CHR '','' # join (y # ys)"

fun json_text :: "jsval \<Rightarrow> string" where
  "json_text JNull = ''null''"
| "json_text (JBool b) = (if b then ''true'' else ''false'')"
| "json_text (JNumber NaN) = ''null''"
| "json_text (JNumber (Num i)) = digits_of_int i"
| "json_text (JString s) = QuoteJSONString s"
| "json_text (JArray vs) = CHR ''['' # join (map json_text vs) @ '']''"
| "json_text (JObject kvs) =
     CHR ''{'' # join (map (\<lambda>kv. QuoteJSONString (fst kv) @ CHR '':'' # json_text (snd kv)) kvs) @ ''}''"

definition JSON_stringify :: "jsval \<Rightarrow> string option" where
  "JSON_stringify v = (if modelled v then Some (json_text v) else None)"

subsection \<open>JSON.parse\<close>

text \<open>
  A recursive-descent parser of the JSON grammar, with white space allowed around every
  token. A parsing function returns \<open>Parsed v r\<close>, the value read and the rest of the
  text, \<open>Reject\<close> where the text is not JSON, or \<open>Beyond\<close> where the text leaves the model.
  \<open>parse_value\<close>, \<open>parse_elements\<close> and \<open>parse_members\<close> take fuel, and \<open>JSON_parse\<close> gives
  them more than the length of the text; running out of it counts as \<open>Beyond\<close>, and the
  round-trip proof below shows that it does not happen on a text that \<open>JSON_stringify\<close>
  wrote. A property name that occurs twice keeps its first position and takes the last
  value.
\<close>

datatype 'a parsed = Parsed 'a string | Reject | Beyond

definition is_ws :: "char \<Rightarrow> bool" where
  "is_ws c = (c = CHR 0x20 \<or> c = CHR 0x09 \<or> c = CHR 0x0A \<or> c = CHR 0x0D)"

definition skip_ws :: "string \<Rightarrow> string" where
  "skip_ws s = dropWhile is_ws s"

text \<open>
  A number: an optional minus sign, the integer digits (no leading zero), an optional
  fraction and an optional exponent. A fraction or an exponent without digits is not
  JSON. Only an integer of the model is read as a value.
\<close>

definition parse_number :: "string \<Rightarrow> jsval parsed" where
  "parse_number s =
     (let neg = starts_with CHR ''-'' s;
          s1 = (if neg then tl s else s);
          ds = takeWhile is_digit s1;
          r = dropWhile is_digit s1;
          has_frac = starts_with CHR ''.'' r;
          fs = (if has_frac then takeWhile is_digit (tl r) else []);
          r2 = (if has_frac then dropWhile is_digit (tl r) else r);
          has_exp = (starts_with CHR ''e'' r2 \<or> starts_with CHR ''E'' r2);
          r3 = (if has_exp then tl r2 else r2);
          r4 = (if has_exp \<and> (starts_with CHR ''+'' r3 \<or> starts_with CHR ''-'' r3) then tl r3 else r3);
          es = (if has_exp then takeWhile is_digit r4 else []);
          n = nat_of_digits ds
      in if ds = [] \<or> (length ds > 1 \<and> starts_with CHR ''0'' ds)
            \<or> (has_frac \<and> fs = []) \<or> (has_exp \<and> es = [])
         then Reject
         else if has_frac \<or> has_exp \<or> n > 2 ^ 53 \<or> (neg \<and> n = 0) then Beyond
         else Parsed (JNumber (Num (if neg then - int n else int n))) r)"

definition hex_val :: "char \<Rightarrow> nat option" where
  "hex_val c =
     (let n = (of_char c :: nat)
      in if 48 \<le> n \<and> n \<le> 57 then Some (n - 48)
         else if 97 \<le> n \<and> n \<le> 102 then Some (n - 87)
         else if 65 \<le> n \<and> n \<le> 70 then Some (n - 55)
         else None)"

definition hex4 :: "string \<Rightarrow> nat option" where
  "hex4 s =
     (case map hex_val s of
        [Some a, Some b, Some c, Some d] \<Rightarrow> Some (((a * 16 + b) * 16 + c) * 16 + d)
      | _ \<Rightarrow> None)"

definition utf8 :: "nat \<Rightarrow> string" where
  "utf8 n =
     (if n < 0x80 then [char_of n]
      else if n < 0x800 then [char_of (0xC0 + n div 64), char_of (0x80 + n mod 64)]
      else if n < 0x10000 then
        [char_of (0xE0 + n div 4096), char_of (0x80 + n div 64 mod 64), char_of (0x80 + n mod 64)]
      else
        [char_of (0xF0 + n div 262144), char_of (0x80 + n div 4096 mod 64),
         char_of (0x80 + n div 64 mod 64), char_of (0x80 + n mod 64)])"

text \<open>
  The text after a backslash. A high surrogate followed by the escape of a low surrogate
  is one character; a surrogate on its own is beyond the model.
\<close>

definition parse_escape :: "string \<Rightarrow> string parsed" where
  "parse_escape s =
     (case s of
        [] \<Rightarrow> Reject
      | e # r \<Rightarrow>
          if e = CHR 0x22 \<or> e = CHR 0x5C \<or> e = CHR ''/'' then Parsed [e] r
          else if e = CHR ''b'' then Parsed [CHR 0x08] r
          else if e = CHR ''f'' then Parsed [CHR 0x0C] r
          else if e = CHR ''n'' then Parsed [CHR 0x0A] r
          else if e = CHR ''r'' then Parsed [CHR 0x0D] r
          else if e = CHR ''t'' then Parsed [CHR 0x09] r
          else if e = CHR ''u'' then
            (case hex4 (take 4 r) of
               None \<Rightarrow> Reject
             | Some n \<Rightarrow>
                 if 0xD800 \<le> n \<and> n < 0xDC00 then
                   (if take 2 (drop 4 r) = [CHR 0x5C, CHR ''u''] then
                      (case hex4 (take 4 (drop 6 r)) of
                         None \<Rightarrow> Reject
                       | Some m \<Rightarrow>
                           if 0xDC00 \<le> m \<and> m < 0xE000
                           then Parsed (utf8 (0x10000 + (n - 0xD800) * 0x400 + (m - 0xDC00))) (drop 10 r)
                           else Beyond)
                    else Beyond)
                 else if 0xDC00 \<le> n \<and> n < 0xE000 then Beyond
                 else Parsed (utf8 n) (drop 4 r))
          else Reject)"

text \<open>The characters of a string up to the closing quote; \<open>acc\<close> is what has been read.\<close>

function parse_chars :: "string \<Rightarrow> string \<Rightarrow> string parsed" where
  "parse_chars [] acc = Reject"
| "parse_chars (c # s) acc =
     (if c = CHR 0x22 then Parsed acc s
      else if c = CHR 0x5C then
        (case parse_escape s of
           Parsed b r \<Rightarrow> parse_chars r (acc @ b)
         | Reject \<Rightarrow> Reject
         | Beyond \<Rightarrow> Beyond)
      else if (of_char c :: nat) < 0x20 then Reject
      else parse_chars s (acc @ [c]))"
  by pat_completeness auto
termination
  by (relation "measure (\<lambda>(s, acc). length s)")
     (auto simp: parse_escape_def split: list.splits if_splits option.splits)

fun obj_put :: "(string \<times> jsval) list \<Rightarrow> string \<Rightarrow> jsval \<Rightarrow> (string \<times> jsval) list" where
  "obj_put [] k v = [(k, v)]"
| "obj_put ((k', v') # kvs) k v = (if k' = k then (k', v) # kvs else (k', v') # obj_put kvs k v)"

definition make_object :: "(string \<times> jsval) list \<Rightarrow> (string \<times> jsval) list" where
  "make_object kvs = foldl (\<lambda>obj kv. obj_put obj (fst kv) (snd kv)) [] kvs"

fun parse_value :: "nat \<Rightarrow> string \<Rightarrow> jsval parsed"
and parse_elements :: "nat \<Rightarrow> string \<Rightarrow> jsval list parsed"
and parse_members :: "nat \<Rightarrow> string \<Rightarrow> (string \<times> jsval) list parsed"
where
  "parse_value 0 s = Beyond"
| "parse_value (Suc n) s =
     (let s1 = skip_ws s
      in if starts_with CHR ''['' s1 then
           (if starts_with CHR '']'' (skip_ws (tl s1)) then Parsed (JArray []) (tl (skip_ws (tl s1)))
            else (case parse_elements n (tl s1) of
                    Parsed vs r \<Rightarrow> Parsed (JArray vs) r
                  | Reject \<Rightarrow> Reject
                  | Beyond \<Rightarrow> Beyond))
         else if starts_with CHR ''{'' s1 then
           (if starts_with CHR ''}'' (skip_ws (tl s1)) then Parsed (JObject []) (tl (skip_ws (tl s1)))
            else (case parse_members n (tl s1) of
                    Parsed kvs r \<Rightarrow>
                      if list_ex (\<lambda>kv. is_array_index (fst kv)) kvs then Beyond
                      else Parsed (JObject (make_object kvs)) r
                  | Reject \<Rightarrow> Reject
                  | Beyond \<Rightarrow> Beyond))
         else if starts_with CHR 0x22 s1 then
           (case parse_chars (tl s1) [] of
              Parsed str r \<Rightarrow> Parsed (JString str) r
            | Reject \<Rightarrow> Reject
            | Beyond \<Rightarrow> Beyond)
         else if take 4 s1 = ''null'' then Parsed JNull (drop 4 s1)
         else if take 4 s1 = ''true'' then Parsed (JBool True) (drop 4 s1)
         else if take 5 s1 = ''false'' then Parsed (JBool False) (drop 5 s1)
         else parse_number s1)"
| "parse_elements 0 s = Beyond"
| "parse_elements (Suc n) s =
     (case parse_value n s of
        Parsed v r \<Rightarrow>
          (let r1 = skip_ws r
           in if starts_with CHR '','' r1 then
                (case parse_elements n (tl r1) of
                   Parsed vs r' \<Rightarrow> Parsed (v # vs) r'
                 | Reject \<Rightarrow> Reject
                 | Beyond \<Rightarrow> Beyond)
              else if starts_with CHR '']'' r1 then Parsed [v] (tl r1)
              else Reject)
      | Reject \<Rightarrow> Reject
      | Beyond \<Rightarrow> Beyond)"
| "parse_members 0 s = Beyond"
| "parse_members (Suc n) s =
     (let s1 = skip_ws s
      in if starts_with CHR 0x22 s1 then
           (case parse_chars (tl s1) [] of
              Parsed k r \<Rightarrow>
                (let r1 = skip_ws r
                 in if starts_with CHR '':'' r1 then
                      (case parse_value n (tl r1) of
                         Parsed v r2 \<Rightarrow>
                           (let r3 = skip_ws r2
                            in if starts_with CHR '','' r3 then
                                 (case parse_members n (tl r3) of
                                    Parsed kvs r' \<Rightarrow> Parsed ((k, v) # kvs) r'
                                  | Reject \<Rightarrow> Reject
                                  | Beyond \<Rightarrow> Beyond)
                               else if starts_with CHR ''}'' r3 then Parsed [(k, v)] (tl r3)
                               else Reject)
                       | Reject \<Rightarrow> Reject
                       | Beyond \<Rightarrow> Beyond)
                    else Reject)
            | Reject \<Rightarrow> Reject
            | Beyond \<Rightarrow> Beyond)
         else Reject)"

definition JSON_parse :: "string \<Rightarrow> (js_error + jsval) option" where
  "JSON_parse text =
     (case parse_value (Suc (length text)) text of
        Parsed v r \<Rightarrow> Some (if skip_ws r = [] then Inr v else Inl SyntaxError)
      | Reject \<Rightarrow> Some (Inl SyntaxError)
      | Beyond \<Rightarrow> None)"


section \<open>Persistence hook (useLocalStorage, in models/ValentineModel.js)\<close>

text \<open>
  The application state is a JavaScript object; \<open>js_of_state\<close> is that object for a state
  of the model, with the properties in the order in which \<open>ValentineModel\<close> creates them
  (object spread keeps the order).

  \<open>useLocalStorage(key, initialValue)\<close> has two parts. The initialiser of \<open>useState\<close> reads
  the item under the key: a missing item (\<open>null\<close>) and the empty string are falsy and give
  \<open>initialValue\<close>, a text that does not parse is caught and gives \<open>initialValue\<close>, any other
  text gives the parsed value. The effect writes \<open>JSON.stringify(storedValue)\<close> under the
  key after every change. \<open>localStorage\<close> is a map from keys to texts; it is taken to be
  available and not full (the hook catches and logs the exceptions of a store that is
  not). Both parts return \<open>None\<close> where the model of the built-ins ends.
\<close>

definition js_of_photo :: "photo \<Rightarrow> jsval" where
  "js_of_photo p =
     JObject [(''id'', JString (id_photo p)),
              (''url'', JString (url p)),
              (''caption'', JString (caption p)),
              (''likes'', JNumber (Num (likes p))),
              (''isFavorite'', JBool (isFavorite p))]"

definition js_of_state :: "state \<Rightarrow> jsval" where
  "js_of_state s =
     JObject [(''currentView'', JString (currentView s)),
              (''photos'', JArray (map js_of_photo (photos s))),
              (''naughtyLevel'', JNumber (Num (naughtyLevel s))),
              (''heartClicks'', JNumber (Num (heartClicks s))),
              (''showConfetti'', JBool (showConfetti s)),
              (''currentPhotoIndex'', JNumber (currentPhotoIndex s))]"

definition useLocalStorage_init :: "(string \<rightharpoonup> string) \<Rightarrow> string \<Rightarrow> jsval \<Rightarrow> jsval option" where
  "useLocalStorage_init localStorage key initialValue =
     (case localStorage key of
        None \<Rightarrow> Some initialValue
      | Some item \<Rightarrow>
          if item = [] then Some initialValue
          else (case JSON_parse item of
                  None \<Rightarrow> None
                | Some (Inl error) \<Rightarrow> Some initialValue
                | Some (Inr v) \<Rightarrow> Some v))"

definition useLocalStorage_effect ::
  "(string \<rightharpoonup> string) \<Rightarrow> string \<Rightarrow> jsval \<Rightarrow> (string \<rightharpoonup> string) option" where
  "useLocalStorage_effect localStorage key storedValue =
     (case JSON_stringify storedValue of
        None \<Rightarrow> None
      | Some valueToStore \<Rightarrow> Some (localStorage (key \<mapsto> valueToStore)))"

text \<open>
  The transition operations of the controller, as values, and a run of them:
  \<open>fold apply_op ops s\<close> applies the operations of \<open>ops\<close> to \<open>s\<close> from left to right. The
  states reachable from the default state are the states
  \<open>fold apply_op ops createInitialState\<close>. The controller's own \<open>saveToStorage\<close>,
  \<open>loadFromStorage\<close> and \<open>clearStorage\<close> are not among them: the application does not call
  them (the one call in \<open>App.jsx\<close> is commented out).

  \<open>issued\<close> holds of an operation as the views issue it: \<open>increaseNaughtyLevel\<close> is called
  with the amounts 10, 5 and 3 and without an argument, never with a negative amount.
\<close>

datatype operation =
    NavigateTo string
  | GoBack
  | LikePhoto string
  | ToggleFavorite string
  | ChangePhoto string
  | AddPhoto string photoData
  | IncreaseNaughtyLevel "int option"
  | ResetNaughtyLevel
  | HandleHeartClick
  | HideConfetti

fun apply_op :: "operation \<Rightarrow> state \<Rightarrow> state" where
  "apply_op (NavigateTo viewName) s = snd (navigateTo viewName s)"
| "apply_op GoBack s = goBack s"
| "apply_op (LikePhoto photoId) s = likePhoto photoId s"
| "apply_op (ToggleFavorite photoId) s = toggleFavorite photoId s"
| "apply_op (ChangePhoto direction) s = changePhoto direction s"
| "apply_op (AddPhoto newId photoData) s = snd (addPhoto newId photoData s)"
| "apply_op (IncreaseNaughtyLevel amountArg) s = increaseNaughtyLevel amountArg s"
| "apply_op ResetNaughtyLevel s = resetNaughtyLevel s"
| "apply_op HandleHeartClick s = handleHeartClick s"
| "apply_op HideConfetti s = hideConfetti s"

fun issued :: "operation \<Rightarrow> bool" where
  "issued (IncreaseNaughtyLevel (Some amount)) = (0 \<le> amount)"
| "issued _ = True"

definition example_operations :: "operation list" where
  "example_operations =
     [NavigateTo ''gallery'', ChangePhoto ''prev'', LikePhoto ''3'',
      AddPhoto ''1700000000000'' \<lparr> data_url = ''/x.jpg'', data_caption = None \<rparr>,
      IncreaseNaughtyLevel (Some 50), HandleHeartClick]"

definition example_state :: state where
  "example_state =
     \<lparr> currentView = ''gallery'',
       photos =
         [ \<lparr> id_photo = ''1'', url = ''/src/assets/photos/DakogKaon.jpg'',
             caption = caption1, likes = 0, isFavorite = False \<rparr>,
           \<lparr> id_photo = ''2'', url = ''/src/assets/photos/Tabian.jpeg'',
             caption = caption2, likes = 0, isFavorite = False \<rparr>,
           \<lparr> id_photo = ''3'', url = ''/src/assets/photos/WowGwapa.jpeg'',
             caption = caption3, likes = 1, isFavorite = False \<rparr>,
           \<lparr> id_photo = ''1700000000000'', url = ''/x.jpg'',
             caption = default_caption, likes = 0, isFavorite = False \<rparr> ],
       naughtyLevel = 58,
       heartClicks = 2,
       showConfetti = False,
       currentPhotoIndex = Num 2 \<rparr>"


section \<open>Predicates used in the proofs\<close>

text \<open>
  \<open>json_safe\<close>: a value of the model without \<open>NaN\<close>. \<open>number_end\<close>, \<open>value_end\<close>: what may
  follow a number, a value, in a text that \<open>JSON_stringify\<close> wrote. \<open>value_start\<close>: the
  first character of such a text. \<open>member_text\<close>: the text of one property.
  \<open>state_in_range\<close>: the state has a photo, an index within the photo list, a level from
  0 to 100 and counters from 0 to \<open>2^53\<close>.
\<close>

fun json_safe :: "jsval \<Rightarrow> bool" where
  "json_safe (JNumber NaN) = False"
| "json_safe (JNumber (Num i)) = (\<bar>i\<bar> \<le> 2 ^ 53)"
| "json_safe (JArray vs) = list_all json_safe vs"
| "json_safe (JObject kvs) =
     (distinct (map fst kvs)
      \<and> list_all (\<lambda>kv. \<not> is_array_index (fst kv) \<and> json_safe (snd kv)) kvs)"
| "json_safe _ = True"

definition number_end :: "string \<Rightarrow> bool" where
  "number_end r = (case r of [] \<Rightarrow> True
                   | c # _ \<Rightarrow> \<not> is_digit c \<and> c \<noteq> CHR ''.'' \<and> c \<noteq> CHR ''e'' \<and> c \<noteq> CHR ''E'')"

definition value_end :: "string \<Rightarrow> bool" where
  "value_end r = (r = [] \<or> starts_with CHR '','' r \<or> starts_with CHR '']'' r \<or> starts_with CHR ''}'' r)"

definition value_start :: "char \<Rightarrow> bool" where
  "value_start c = (\<not> is_ws c \<and> c \<noteq> CHR '']'' \<and> c \<noteq> CHR ''}'' \<and> c \<noteq> CHR '','')"

definition member_text :: "string \<times> jsval \<Rightarrow> string" where
  "member_text kv = QuoteJSONString (fst kv) @ CHR '':'' # json_text (snd kv)"

definition counter_in_range :: "int \<Rightarrow> bool" where
  "counter_in_range n = (0 \<le> n \<and> n \<le> 2 ^ 53)"

definition state_in_range :: "state \<Rightarrow> bool" where
  "state_in_range s =
     (photos s \<noteq> [] \<and> index_in_range s
      \<and> 0 \<le> naughtyLevel s \<and> naughtyLevel s \<le> 100
      \<and> counter_in_range (heartClicks s)
      \<and> list_all (\<lambda>p. counter_in_range (likes p)) (photos s))"


section \<open>Properties of the arithmetic\<close>

text \<open>
  A sum whose exact value is at most \<open>2^53\<close> in magnitude is exact. A larger one is rounded,
  and stays at or above \<open>2^53\<close>. At \<open>2^53\<close> adding 1 is absorbed: a counter that is
  incremented by 1 stops there.
\<close>

lemma round_double_exact: "\<bar>x\<bar> \<le> 2 ^ 53 \<Longrightarrow> round_double x = x"
  by (simp add: round_double_def)

lemma bitlen_bounds: "0 < n \<Longrightarrow> 2 ^ (bitlen n - 1) \<le> n \<and> n < 2 ^ bitlen n"
proof (induction n rule: bitlen.induct)
  case (1 n)
  show ?case
  proof (cases "n div 2 = 0")
    case True
    with 1(2) have "n = 1" by (simp add: div_eq_0_iff)
    then show ?thesis by (simp add: bitlen.simps)
  next
    case False
    with 1 have IH: "2 ^ (bitlen (n div 2) - 1) \<le> n div 2" "n div 2 < 2 ^ bitlen (n div 2)"
      by simp_all
    from False have pos: "0 < bitlen (n div 2)" by (subst bitlen.simps) simp
    have b: "bitlen n = Suc (bitlen (n div 2))" using 1(2) by (subst bitlen.simps) simp
    from pos obtain k where k: "bitlen (n div 2) = Suc k" by (cases "bitlen (n div 2)") auto
    from IH k have "2 * 2 ^ k \<le> n" "n < 2 * 2 ^ Suc k" by auto
    then show ?thesis by (simp add: b k)
  qed
qed

lemma round_mag_large:
  assumes m: "2 ^ 53 < m"
  shows "2 ^ 53 \<le> round_mag m"
proof -
  from m have m0: "0 < m" by (simp add: less_trans [OF zero_less_numeral])
  from bitlen_bounds [OF m0] have lo: "2 ^ (bitlen m - 1) \<le> m" and hi: "m < 2 ^ bitlen m"
    by simp_all
  from m hi have "(2::nat) ^ 53 < 2 ^ bitlen m" by (rule less_trans)
  then have b: "53 < bitlen m" by (rule power_less_imp_less_exp [rotated]) simp
  define e where "e = bitlen m - 53"
  with b have e: "0 < e" "bitlen m - 1 = e + 52" by simp_all
  define q where "q = m div 2 ^ e"
  from lo e have "2 ^ 52 * 2 ^ e \<le> m" by (simp add: power_add mult.commute)
  then have "2 ^ 52 \<le> q" unfolding q_def
    by (simp add: less_eq_div_iff_mult_less_eq)
  define q' where "q' = (if m mod 2 ^ e > 2 ^ (e - 1) \<or> (m mod 2 ^ e = 2 ^ (e - 1) \<and> odd q) then q + 1 else q)"
  with \<open>2 ^ 52 \<le> q\<close> have "2 ^ 52 \<le> q'" by simp
  moreover from e have "(2::nat) \<le> 2 ^ e" using self_le_power [of 2 e] by simp
  ultimately have "2 ^ 52 * 2 \<le> q' * 2 ^ e" by (rule mult_le_mono)
  then have big: "(2::nat) ^ 53 \<le> q' * 2 ^ e" by simp
  have "round_mag m = q' * 2 ^ e"
    unfolding round_mag_def Let_def q'_def q_def e_def ..
  with big show ?thesis by simp
qed

lemma round_double_large:
  assumes "2 ^ 53 \<le> x"
  shows "2 ^ 53 \<le> round_double x"
proof (cases "x = 2 ^ 53")
  case True
  then show ?thesis by (simp add: round_double_def)
next
  case False
  with assms have x: "2 ^ 53 < x" by simp
  then have "(2::nat) ^ 53 < nat \<bar>x\<bar>" by (simp add: nat_less_iff)
  from round_mag_large [OF this] have "(2::int) ^ 53 \<le> int (round_mag (nat \<bar>x\<bar>))"
    by (metis of_nat_le_iff of_nat_numeral of_nat_power)
  with x show ?thesis by (simp add: round_double_def)
qed

lemma round_double_nonneg: "0 \<le> x \<Longrightarrow> 0 \<le> round_double x"
  by (simp add: round_double_def sgn_if)

lemma min_round_double_100:
  assumes "- (2 ^ 53) \<le> x"
  shows "min (round_double x) 100 = min x 100"
proof (cases "x \<le> 2 ^ 53")
  case True
  with assms show ?thesis by (simp add: round_double_exact)
next
  case False
  then have "2 ^ 53 \<le> x" by simp
  from round_double_large [OF this] False show ?thesis by simp
qed

lemma min_js_plus_100:
  "safe_integer a \<Longrightarrow> 0 \<le> b \<Longrightarrow> min (js_plus a b) 100 = min (a + b) 100"
  unfolding js_plus_def by (rule min_round_double_100) (simp add: safe_integer_def)

lemma bitlen_2_53_1: "bitlen 9007199254740993 = 54"
  by (simp add: bitlen.simps)

lemma round_double_absorbs: "round_double (2 ^ 53 + 1) = 2 ^ 53"
  by (simp add: round_double_def round_mag_def bitlen_2_53_1 Let_def)

lemma js_plus_one_saturates:
  assumes "0 \<le> h" "h \<le> 2 ^ 53"
  shows "0 \<le> js_plus h 1 \<and> js_plus h 1 \<le> 2 ^ 53"
proof (cases "h = 2 ^ 53")
  case True
  then show ?thesis using round_double_absorbs by (simp add: js_plus_def)
next
  case False
  with assms have "\<bar>h + 1\<bar> \<le> 2 ^ 53" by simp
  from round_double_exact [OF this] assms False show ?thesis by (simp add: js_plus_def)
qed

lemma js_plus_safe: "safe_integer a \<Longrightarrow> \<bar>b\<bar> \<le> 1 \<Longrightarrow> js_plus a b = a + b"
  unfolding js_plus_def by (rule round_double_exact) (simp add: safe_integer_def)

lemma js_plus_small: "\<bar>a + b\<bar> \<le> 2 ^ 53 \<Longrightarrow> js_plus a b = a + b"
  unfolding js_plus_def by (rule round_double_exact)

text \<open>Beyond the safe integers the sum of the code is not the sum of the integers.\<close>

lemma js_plus_absorbs_at_2_53: "js_plus 9007199254740992 1 = 9007199254740992"
  using round_double_absorbs by (simp add: js_plus_def)


section \<open>Properties of the controller\<close>

subsection \<open>Range of the naughty level\<close>




subsection \<open>Confetti at the 50 mark\<close>

text \<open>
  C7. After \<open>increaseNaughtyLevel\<close> the flag \<open>showConfetti\<close> is true exactly when the
  level before the call was below 50 and the level after it is at least 50. The flag is
  written on every call, so a call that starts at or above 50 leaves it false.
\<close>

theorem increaseNaughtyLevel_confetti_edge:
  "showConfetti (increaseNaughtyLevel amountArg s) =
     (naughtyLevel s < 50 \<and> 50 \<le> naughtyLevel (increaseNaughtyLevel amountArg s))
   \<and> (50 \<le> naughtyLevel s \<longrightarrow> \<not> showConfetti (increaseNaughtyLevel amountArg s))"
  by (auto simp add: increaseNaughtyLevel_def Let_def)

theorem increaseNaughtyLevel_confetti_edge_witness:
  "50 \<le> naughtyLevel (createInitialState \<lparr> naughtyLevel := 60, showConfetti := True \<rparr>)
   \<and> \<not> showConfetti (increaseNaughtyLevel (Some 10)
          (createInitialState \<lparr> naughtyLevel := 60, showConfetti := True \<rparr>))
   \<and> showConfetti (increaseNaughtyLevel (Some 10) (createInitialState \<lparr> naughtyLevel := 45 \<rparr>))"
  using increaseNaughtyLevel_confetti_edge
          [of "Some 10" "createInitialState \<lparr> naughtyLevel := 60, showConfetti := True \<rparr>"]
        increaseNaughtyLevel_confetti_edge
          [of "Some 10" "createInitialState \<lparr> naughtyLevel := 45 \<rparr>"]
  by (simp add: increaseNaughtyLevel_def js_plus_def round_double_def)

subsection \<open>Reset\<close>

text \<open>
  C10. \<open>resetNaughtyLevel\<close> sets \<open>naughtyLevel\<close> to 0 and \<open>showConfetti\<close> to false and
  leaves \<open>heartClicks\<close>, the photo list (hence every field of every photo),
  \<open>currentView\<close> and \<open>currentPhotoIndex\<close> as they were.
\<close>

theorem resetNaughtyLevel_frame:
  "naughtyLevel (resetNaughtyLevel s) = 0
   \<and> showConfetti (resetNaughtyLevel s) = False
   \<and> heartClicks (resetNaughtyLevel s) = heartClicks s
   \<and> photos (resetNaughtyLevel s) = photos s
   \<and> currentView (resetNaughtyLevel s) = currentView s
   \<and> currentPhotoIndex (resetNaughtyLevel s) = currentPhotoIndex s"
  by (simp add: resetNaughtyLevel_def)

subsection \<open>Heart clicks\<close>

lemma trunc_rem_eq_0_iff: "b \<noteq> 0 \<Longrightarrow> (trunc_rem a b = 0) = (b dvd a)"
  by (auto simp add: trunc_rem_def sgn_if dvd_eq_mod_eq_0 [symmetric])

lemma heartClicks_funpow:
  "0 \<le> heartClicks s \<Longrightarrow> heartClicks s + int k \<le> 2 ^ 53 \<Longrightarrow>
     heartClicks ((handleHeartClick ^^ k) s) = heartClicks s + int k"
proof (induction k)
  case 0
  show ?case by simp
next
  case (Suc k)
  then have IH: "heartClicks ((handleHeartClick ^^ k) s) = heartClicks s + int k" by simp
  from Suc.prems have "\<bar>heartClicks s + int k + 1\<bar> \<le> 2 ^ 53" by simp
  then have "js_plus (heartClicks s + int k) 1 = heartClicks s + int k + 1"
    by (rule js_plus_small)
  moreover have "heartClicks (handleHeartClick t) = js_plus (heartClicks t) 1" for t
    by (simp add: handleHeartClick_def Let_def)
  ultimately show ?case using IH by simp
qed

lemma showConfetti_handleHeartClick:
  "showConfetti (handleHeartClick s) = (10 dvd heartClicks (handleHeartClick s))"
  by (simp add: handleHeartClick_def Let_def trunc_rem_eq_0_iff)

lemma showConfetti_funpow:
  assumes "0 < k" "0 \<le> heartClicks s" "heartClicks s + int k \<le> 2 ^ 53"
  shows "showConfetti ((handleHeartClick ^^ k) s) = (10 dvd (heartClicks s + int k))"
proof -
  from assms(1) obtain m where k: "k = Suc m" by (cases k) auto
  have "showConfetti ((handleHeartClick ^^ k) s) = (10 dvd heartClicks ((handleHeartClick ^^ k) s))"
    by (simp add: k showConfetti_handleHeartClick)
  with heartClicks_funpow [OF assms(2,3)] show ?thesis by simp
qed

text \<open>
  C5. In a state whose \<open>heartClicks\<close> and \<open>naughtyLevel\<close> are safe integers,
  \<open>handleHeartClick\<close> adds 1 to \<open>heartClicks\<close>, sets \<open>naughtyLevel\<close> to
  \<open>min (naughtyLevel + 3) 100\<close>, and sets \<open>showConfetti\<close> to true if and only if the new
  \<open>heartClicks\<close> is a multiple of 10. Hence, starting from \<open>heartClicks = 0\<close>, of the
  first ten consecutive calls only the tenth leaves \<open>showConfetti\<close> true.
\<close>

theorem handleHeartClick_effect:
  "safe_integer (heartClicks s) \<Longrightarrow> safe_integer (naughtyLevel s) \<Longrightarrow>
     heartClicks (handleHeartClick s) = heartClicks s + 1
   \<and> naughtyLevel (handleHeartClick s) = min (naughtyLevel s + 3) 100
   \<and> showConfetti (handleHeartClick s) = (10 dvd heartClicks (handleHeartClick s))
   \<and> (heartClicks s = 0 \<longrightarrow>
        (\<forall>k \<in> {1..10}. showConfetti ((handleHeartClick ^^ k) s) = (k = 10)))"
proof -
  assume safe: "safe_integer (heartClicks s)" "safe_integer (naughtyLevel s)"
  have "showConfetti ((handleHeartClick ^^ k) s) = (k = 10)"
    if "heartClicks s = 0" and "k \<in> {1..10}" for k
  proof -
    from that have k: "0 < k" "k \<le> 10" by simp_all
    have "(10 dvd int k) = (k = 10)"
    proof
      assume "10 dvd int k"
      then have "(10::nat) dvd k" by presburger
      with k show "k = 10" by (auto elim: dvdE)
    next
      assume "k = 10" then show "10 dvd int k" by simp
    qed
    moreover from that k have "0 \<le> heartClicks s" "heartClicks s + int k \<le> 2 ^ 53" by simp_all
    ultimately show ?thesis using that k by (simp add: showConfetti_funpow)
  qed
  moreover from safe have "js_plus (heartClicks s) 1 = heartClicks s + 1"
    by (simp add: js_plus_safe)
  moreover from safe have "min (js_plus (naughtyLevel s) 3) 100 = min (naughtyLevel s + 3) 100"
    by (simp add: min_js_plus_100)
  ultimately show ?thesis
    by (simp add: handleHeartClick_def Let_def trunc_rem_eq_0_iff)
qed

theorem handleHeartClick_effect_witness:
  "safe_integer (heartClicks createInitialState)
   \<and> safe_integer (naughtyLevel createInitialState)
   \<and> heartClicks createInitialState = 0
   \<and> heartClicks (handleHeartClick createInitialState) = 1
   \<and> naughtyLevel (handleHeartClick createInitialState) = 3
   \<and> \<not> showConfetti ((handleHeartClick ^^ 9) createInitialState)
   \<and> showConfetti ((handleHeartClick ^^ 10) createInitialState)"
proof -
  have h: "heartClicks createInitialState = 0" "naughtyLevel createInitialState = 0"
    by (simp_all add: createInitialState_def ValentineModel_def)
  then have safe: "safe_integer (heartClicks createInitialState)"
    "safe_integer (naughtyLevel createInitialState)"
    by (simp_all add: safe_integer_def)
  note e = handleHeartClick_effect [OF safe]
  from e h
  have all: "\<forall>k \<in> {1..10}. showConfetti ((handleHeartClick ^^ k) createInitialState) = (k = 10)"
    by blast
  have "(9::nat) \<in> {1..10}" and "(10::nat) \<in> {1..10}" by simp_all
  with all have "\<not> showConfetti ((handleHeartClick ^^ 9) createInitialState)"
    "showConfetti ((handleHeartClick ^^ 10) createInitialState)" by fastforce+
  with e h safe show ?thesis by simp
qed

subsection \<open>Liking a photo that is not there\<close>

text \<open>
  C4. In a state whose \<open>heartClicks\<close> and \<open>naughtyLevel\<close> are safe integers, when no photo
  has the given id, \<open>likePhoto\<close> leaves the photo list as it is (same photos, same
  likes), and still adds 1 to \<open>heartClicks\<close> and sets \<open>naughtyLevel\<close> to
  \<open>min (naughtyLevel + 5) 100\<close>.
\<close>

theorem likePhoto_no_match:
  "\<forall>p \<in> set (photos s). id_photo p \<noteq> photoId \<Longrightarrow>
   safe_integer (heartClicks s) \<Longrightarrow> safe_integer (naughtyLevel s) \<Longrightarrow>
     photos (likePhoto photoId s) = photos s
   \<and> heartClicks (likePhoto photoId s) = heartClicks s + 1
   \<and> naughtyLevel (likePhoto photoId s) = min (naughtyLevel s + 5) 100"
proof -
  assume nomatch: "\<forall>p \<in> set (photos s). id_photo p \<noteq> photoId"
    and safe: "safe_integer (heartClicks s)" "safe_integer (naughtyLevel s)"
  have "map (\<lambda>photo. if id_photo photo = photoId
                      then photo \<lparr> likes := js_plus (likes photo) 1 \<rparr> else photo)
            (photos s) = photos s"
    using nomatch by (induction "photos s") (auto simp: map_idI)
  moreover from safe have "js_plus (heartClicks s) 1 = heartClicks s + 1"
    by (simp add: js_plus_safe)
  moreover from safe have "min (js_plus (naughtyLevel s) 5) 100 = min (naughtyLevel s + 5) 100"
    by (simp add: min_js_plus_100)
  ultimately show ?thesis by (simp add: likePhoto_def Let_def)
qed

theorem likePhoto_no_match_witness:
  "''99'' \<notin> id_photo ` set (photos createInitialState)
   \<and> safe_integer (heartClicks createInitialState)
   \<and> safe_integer (naughtyLevel createInitialState)
   \<and> photos (likePhoto ''99'' createInitialState) = photos createInitialState
   \<and> heartClicks (likePhoto ''99'' createInitialState) = 1
   \<and> naughtyLevel (likePhoto ''99'' createInitialState) = 5"
proof -
  have h: "\<forall>p \<in> set (photos createInitialState). id_photo p \<noteq> ''99''"
    by (simp add: createInitialState_def ValentineModel_def)
  have safe: "safe_integer (heartClicks createInitialState)"
    "safe_integer (naughtyLevel createInitialState)"
    by (simp_all add: createInitialState_def ValentineModel_def safe_integer_def)
  from likePhoto_no_match [OF h safe] h safe show ?thesis
    by (simp add: createInitialState_def ValentineModel_def)
qed

subsection \<open>Navigation\<close>

text \<open>
  C6. \<open>navigateTo\<close> with a view other than home, gallery and naughty logs the rejection
  and returns with the state unchanged in every field; nothing is thrown. With one of the
  three views it sets \<open>currentView\<close> to it and changes no other field.
\<close>

theorem navigateTo_valid_or_rejected:
  "(viewName \<notin> {''home'', ''gallery'', ''naughty''} \<longrightarrow>
      snd (navigateTo viewName s) = s
    \<and> fst (navigateTo viewName s) = Some (''Invalid view: '' @ viewName))
   \<and> (viewName \<in> {''home'', ''gallery'', ''naughty''} \<longrightarrow>
      fst (navigateTo viewName s) = None
    \<and> snd (navigateTo viewName s) = s \<lparr> currentView := viewName \<rparr>
    \<and> currentView (snd (navigateTo viewName s)) = viewName
    \<and> photos (snd (navigateTo viewName s)) = photos s
    \<and> naughtyLevel (snd (navigateTo viewName s)) = naughtyLevel s
    \<and> heartClicks (snd (navigateTo viewName s)) = heartClicks s
    \<and> showConfetti (snd (navigateTo viewName s)) = showConfetti s
    \<and> currentPhotoIndex (snd (navigateTo viewName s)) = currentPhotoIndex s)"
  by (auto simp add: navigateTo_def validViews_def)

theorem navigateTo_valid_or_rejected_witness:
  "''bogus'' \<notin> {''home'', ''gallery'', ''naughty''}
   \<and> snd (navigateTo ''bogus'' createInitialState) = createInitialState
   \<and> ''gallery'' \<in> {''home'', ''gallery'', ''naughty''}
   \<and> currentView (snd (navigateTo ''gallery'' createInitialState)) = ''gallery''
   \<and> photos (snd (navigateTo ''gallery'' createInitialState)) = photos createInitialState"
  using navigateTo_valid_or_rejected [of "''bogus''" createInitialState]
        navigateTo_valid_or_rejected [of "''gallery''" createInitialState]
  by simp

subsection \<open>Cycling through the photos\<close>

text \<open>On a non-negative dividend the remainder of JavaScript is \<open>mod\<close>.\<close>

lemma trunc_rem_nonneg: "0 \<le> a \<Longrightarrow> 0 < b \<Longrightarrow> trunc_rem a b = a mod b"
  by (cases "a = 0") (simp_all add: trunc_rem_def)

lemma changePhoto_photos [simp]: "photos (changePhoto d s) = photos s"
  by (simp add: changePhoto_def Let_def)

lemma changePhoto_next:
  assumes "currentPhotoIndex s = Num i" "0 \<le> i" "i < int (length (photos s))"
  shows "currentPhotoIndex (changePhoto ''next'' s) = Num ((i + 1) mod int (length (photos s)))"
  using assms by (auto simp add: changePhoto_def Let_def trunc_rem_nonneg)

lemma changePhoto_prev:
  assumes "currentPhotoIndex s = Num i" "0 \<le> i" "i < int (length (photos s))"
  shows "currentPhotoIndex (changePhoto ''prev'' s)
           = Num ((i - 1 + int (length (photos s))) mod int (length (photos s)))"
  using assms by (auto simp add: changePhoto_def Let_def trunc_rem_nonneg)

lemma changePhoto_in_range:
  assumes "index_in_range s" "d = ''next'' \<or> d = ''prev''"
  shows "index_in_range (changePhoto d s)"
proof -
  from assms(1) obtain i where i: "currentPhotoIndex s = Num i" "0 \<le> i" "i < int (length (photos s))"
    by (auto simp: index_in_range_def split: jsnum.splits)
  then have n: "0 < int (length (photos s))" by linarith
  from assms(2) show ?thesis
  proof
    assume "d = ''next''"
    with changePhoto_next [OF i] n show ?thesis by (simp add: index_in_range_def)
  next
    assume "d = ''prev''"
    with changePhoto_prev [OF i] n show ?thesis by (simp add: index_in_range_def)
  qed
qed

lemma changePhoto_in_range_any:
  assumes "index_in_range s"
  shows "index_in_range (changePhoto d s)"
proof (cases "d = ''next'' \<or> d = ''prev''")
  case True
  with assms show ?thesis by (rule changePhoto_in_range)
next
  case False
  then have "changePhoto d s = s \<lparr> currentPhotoIndex := currentPhotoIndex s \<rparr>"
    by (simp add: changePhoto_def Let_def)
  with assms show ?thesis by (simp add: index_in_range_def)
qed

lemma fold_changePhoto_in_range:
  "index_in_range s \<Longrightarrow> set ds \<subseteq> {''next'', ''prev''} \<Longrightarrow> index_in_range (fold changePhoto ds s)"
  by (induction ds arbitrary: s) (auto simp: changePhoto_in_range)

lemma fold_changePhoto_photos: "photos (fold changePhoto ds s) = photos s"
  by (induction ds arbitrary: s) simp_all

text \<open>
  C8. With a non-empty photo list of length \<open>n\<close> and an index \<open>i\<close> in \<open>[0, n)\<close>, every
  finite sequence of \<open>changePhoto\<close> calls with directions next and prev leaves the index
  an integer in \<open>[0, n)\<close> (the photo list does not change). One call moves the index to
  \<open>(i + 1) mod n\<close> for next and to \<open>(i - 1 + n) mod n\<close> for prev; with 3 photos and index
  0, prev gives 2.
\<close>

theorem changePhoto_sequence_in_range:
  assumes "photos s \<noteq> []"
    and "currentPhotoIndex s = Num i" and "0 \<le> i" and "i < int (length (photos s))"
    and "set ds \<subseteq> {''next'', ''prev''}"
  shows "(\<exists>j. currentPhotoIndex (fold changePhoto ds s) = Num j
            \<and> 0 \<le> j \<and> j < int (length (photos s)))
       \<and> photos (fold changePhoto ds s) = photos s
       \<and> currentPhotoIndex (changePhoto ''next'' s) = Num ((i + 1) mod int (length (photos s)))
       \<and> currentPhotoIndex (changePhoto ''prev'' s)
           = Num ((i - 1 + int (length (photos s))) mod int (length (photos s)))
       \<and> (length (photos s) = 3 \<and> i = 0 \<longrightarrow> currentPhotoIndex (changePhoto ''prev'' s) = Num 2)"
proof -
  from assms have "index_in_range s" by (simp add: index_in_range_def)
  from fold_changePhoto_in_range [OF this assms(5)]
  have "\<exists>j. currentPhotoIndex (fold changePhoto ds s) = Num j
            \<and> 0 \<le> j \<and> j < int (length (photos s))"
    by (auto simp: index_in_range_def fold_changePhoto_photos split: jsnum.splits)
  moreover note changePhoto_next [OF assms(2-4)] changePhoto_prev [OF assms(2-4)]
  ultimately show ?thesis by (simp add: fold_changePhoto_photos)
qed

theorem changePhoto_sequence_in_range_witness:
  "photos createInitialState \<noteq> []
   \<and> currentPhotoIndex createInitialState = Num 0 \<and> (0::int) \<le> 0
   \<and> 0 < int (length (photos createInitialState))
   \<and> set [''prev'', ''prev'', ''next''] \<subseteq> {''next'', ''prev''}
   \<and> length (photos createInitialState) = 3
   \<and> currentPhotoIndex (changePhoto ''prev'' createInitialState) = Num 2
   \<and> currentPhotoIndex (changePhoto ''next'' createInitialState) = Num 1
   \<and> currentPhotoIndex (fold changePhoto [''prev'', ''prev'', ''next''] createInitialState) = Num 2"
proof -
  have h: "photos createInitialState \<noteq> []" "currentPhotoIndex createInitialState = Num 0"
    "(0::int) \<le> 0" "0 < int (length (photos createInitialState))"
    "set [''prev'', ''prev'', ''next''] \<subseteq> {''next'', ''prev''}"
    by (simp_all add: createInitialState_def ValentineModel_def)
  have l: "length (photos createInitialState) = 3"
    by (simp add: createInitialState_def ValentineModel_def)
  have f: "currentPhotoIndex (fold changePhoto [''prev'', ''prev'', ''next''] createInitialState) = Num 2"
    by (simp add: changePhoto_def createInitialState_def ValentineModel_def trunc_rem_def)
  from changePhoto_sequence_in_range [OF h] h l f show ?thesis by simp
qed

subsection \<open>The empty photo list\<close>

text \<open>No operation of the controller removes a photo.\<close>

lemma apply_op_photos_nonempty: "photos s \<noteq> [] \<Longrightarrow> photos (apply_op op s) \<noteq> []"
  by (cases op)
     (simp_all add: navigateTo_def goBack_def likePhoto_def toggleFavorite_def addPhoto_def
        increaseNaughtyLevel_def resetNaughtyLevel_def handleHeartClick_def hideConfetti_def
        Let_def)

lemma fold_apply_op_photos_nonempty:
  "photos s \<noteq> [] \<Longrightarrow> photos (fold apply_op ops s) \<noteq> []"
  by (induction ops arbitrary: s) (simp_all add: apply_op_photos_nonempty)

lemma photos_createInitialState: "photos createInitialState \<noteq> []"
  by (simp add: createInitialState_def ValentineModel_def)

text \<open>
  C2 as stated fails: \<open>changePhoto\<close> has no case for an empty photo list. Called with one,
  it takes the remainder by \<open>totalPhotos = 0\<close> in both directions, and the index, 0
  before the call, is \<open>NaN\<close> after it.
\<close>

theorem changePhoto_empty_photos:
  "currentPhotoIndex (changePhoto ''next'' (createInitialState \<lparr> photos := [] \<rparr>)) = NaN
   \<and> currentPhotoIndex (changePhoto ''prev'' (createInitialState \<lparr> photos := [] \<rparr>)) = NaN
   \<and> currentPhotoIndex (createInitialState \<lparr> photos := [] \<rparr>) = Num 0"
  by (simp add: changePhoto_def createInitialState_def ValentineModel_def)

text \<open>
  C2 (where the empty list is handled). With an empty photo list the gallery view returns
  before it binds a handler to the previous and next buttons and to the swipes: the
  rendered page offers the back button only. So no user action calls \<open>changePhoto\<close>, no
  remainder by zero is taken, and every action leaves \<open>currentPhotoIndex\<close> as it was.
  And no state that the operations of the controller reach from the initial state has an
  empty photo list.
\<close>

theorem GalleryView_empty_photos:
  "(photos s = [] \<longrightarrow>
      GalleryView s = Inr (\<lambda>c. if c = BackButton then Some onClose else None)
    \<and> gallery_action c s = (if c = BackButton then onClose s else s)
    \<and> currentPhotoIndex (gallery_action c s) = currentPhotoIndex s)
   \<and> photos (fold apply_op ops createInitialState) \<noteq> []"
proof -
  have "photos (fold apply_op ops createInitialState) \<noteq> []"
    using photos_createInitialState by (rule fold_apply_op_photos_nonempty)
  then show ?thesis
    by (simp add: GalleryView_def gallery_action_def onClose_def navigateTo_def validViews_def)
qed

theorem GalleryView_empty_photos_witness:
  "photos (createInitialState \<lparr> photos := [] \<rparr>) = []
   \<and> gallery_action NextButton (createInitialState \<lparr> photos := [] \<rparr>)
       = createInitialState \<lparr> photos := [] \<rparr>
   \<and> gallery_action PhotoSwipeRight (createInitialState \<lparr> photos := [] \<rparr>)
       = createInitialState \<lparr> photos := [] \<rparr>
   \<and> currentPhotoIndex (gallery_action PrevButton (createInitialState \<lparr> photos := [] \<rparr>)) = Num 0
   \<and> photos (fold apply_op [ToggleFavorite ''1'', ChangePhoto ''next''] createInitialState) \<noteq> []"
  using GalleryView_empty_photos [of "createInitialState \<lparr> photos := [] \<rparr>" NextButton
          "[ToggleFavorite ''1'', ChangePhoto ''next'']"]
        GalleryView_empty_photos [of "createInitialState \<lparr> photos := [] \<rparr>" PhotoSwipeRight "[]"]
        GalleryView_empty_photos [of "createInitialState \<lparr> photos := [] \<rparr>" PrevButton "[]"]
  by (simp add: createInitialState_def ValentineModel_def)

text \<open>
  With photos, the swipes and the enabled buttons of the gallery call \<open>changePhoto\<close> on a
  non-empty list, and the index stays within it.
\<close>

lemma gallery_action_in_range:
  assumes "photos s \<noteq> []" "index_in_range s"
  shows "index_in_range (gallery_action c s)"
proof -
  from assms(2) obtain i where i: "currentPhotoIndex s = Num i" "0 \<le> i" "i < int (length (photos s))"
    by (auto simp: index_in_range_def split: jsnum.splits)
  have nav: "index_in_range (snd (navigateTo v s))" for v
    using i by (simp add: navigateTo_def index_in_range_def)
  have like: "index_in_range (likePhoto k s)" for k
    using i by (simp add: likePhoto_def index_in_range_def Let_def)
  have fav: "index_in_range (toggleFavorite k s)" for k
    using i by (simp add: toggleFavorite_def index_in_range_def)
  note chg = changePhoto_in_range_any [OF assms(2)]
  from assms(1) i show ?thesis
    by (cases c)
       (simp_all add: gallery_action_def GalleryView_def Let_def onClose_def onOpenNaughty_def
          nav like fav chg assms(2))
qed


section \<open>Properties of the swipe recogniser\<close>

text \<open>
  C3. For every start point \<open>(x0, y0)\<close>, end point \<open>(x1, y1)\<close> and threshold \<open>t\<close>,
  \<open>handleTouchEnd\<close> stores the end point and calls exactly the callback that the decision
  procedure of the specification selects for \<open>dx = x1 - x0\<close> and \<open>dy = y1 - y0\<close>, and none
  where it selects none. With a threshold \<open>t \<ge> 0\<close> (it is a minimum distance; the default
  and the gallery's value are 50) that is the decision table: Right if \<open>adx > ady\<close>,
  \<open>adx > t\<close> and \<open>dx > 0\<close>; Left if \<open>adx > ady\<close>, \<open>adx > t\<close> and \<open>dx < 0\<close>; Down if
  \<open>adx \<le> ady\<close>, \<open>ady > t\<close> and \<open>dy > 0\<close>; Up if \<open>adx \<le> ady\<close>, \<open>ady > t\<close> and \<open>dy < 0\<close>; no
  callback otherwise. An exact tie \<open>adx = ady\<close> is vertical, and a gesture below the
  threshold calls nothing.
\<close>

theorem handleTouchEnd_decision:
  "handleTouchEnd cbs t
     \<lparr> touches = ts, changedTouches = \<lparr> clientX = x1, clientY = y1 \<rparr> # rest \<rparr>
     (\<lparr> touchStartX = x0, touchStartY = y0, touchEndX = ex, touchEndY = ey \<rparr>, w)
   = Inr (\<lparr> touchStartX = x0, touchStartY = y0, touchEndX = x1, touchEndY = y1 \<rparr>,
          fire cbs (spec_md_decision t (x1 - x0) (y1 - y0)) w)
   \<and> (0 \<le> t \<longrightarrow>
        handleTouchEnd cbs t
          \<lparr> touches = ts, changedTouches = \<lparr> clientX = x1, clientY = y1 \<rparr> # rest \<rparr>
          (\<lparr> touchStartX = x0, touchStartY = y0, touchEndX = ex, touchEndY = ey \<rparr>, w)
        = Inr (\<lparr> touchStartX = x0, touchStartY = y0, touchEndX = x1, touchEndY = y1 \<rparr>,
               fire cbs (spec_decision t (x1 - x0) (y1 - y0)) w))
   \<and> (0 \<le> t \<and> \<bar>x1 - x0\<bar> = \<bar>y1 - y0\<bar> \<longrightarrow>
        spec_decision t (x1 - x0) (y1 - y0) \<notin> {Some SwipeLeft, Some SwipeRight})
   \<and> (0 \<le> t \<and> \<bar>x1 - x0\<bar> \<le> t \<and> \<bar>y1 - y0\<bar> \<le> t \<longrightarrow>
        handleTouchEnd cbs t
          \<lparr> touches = ts, changedTouches = \<lparr> clientX = x1, clientY = y1 \<rparr> # rest \<rparr>
          (\<lparr> touchStartX = x0, touchStartY = y0, touchEndX = ex, touchEndY = ey \<rparr>, w)
        = Inr (\<lparr> touchStartX = x0, touchStartY = y0, touchEndX = x1, touchEndY = y1 \<rparr>, w))"
  by (auto simp add: handleTouchEnd_def spec_decision_def spec_md_decision_def Let_def)

theorem handleTouchEnd_decision_witness:
  "(0::int) \<le> 50
   \<and> handleTouchEnd logging_callbacks 50
     \<lparr> touches = [], changedTouches = [\<lparr> clientX = 40, clientY = 100 \<rparr>] \<rparr>
     (\<lparr> touchStartX = 100, touchStartY = 100, touchEndX = 0, touchEndY = 0 \<rparr>, [])
   = Inr (\<lparr> touchStartX = 100, touchStartY = 100, touchEndX = 40, touchEndY = 100 \<rparr>, [''left''])
   \<and> handleTouchEnd logging_callbacks 50
     \<lparr> touches = [], changedTouches = [\<lparr> clientX = 100, clientY = 100 \<rparr>] \<rparr>
     (\<lparr> touchStartX = 100, touchStartY = 100, touchEndX = 0, touchEndY = 0 \<rparr>, [])
   = Inr (\<lparr> touchStartX = 100, touchStartY = 100, touchEndX = 100, touchEndY = 100 \<rparr>, [])
   \<and> handleTouchEnd logging_callbacks 50
     \<lparr> touches = [], changedTouches = [\<lparr> clientX = 100, clientY = 151 \<rparr>] \<rparr>
     (\<lparr> touchStartX = 100, touchStartY = 100, touchEndX = 0, touchEndY = 0 \<rparr>, [])
   = Inr (\<lparr> touchStartX = 100, touchStartY = 100, touchEndX = 100, touchEndY = 151 \<rparr>, [''down''])
   \<and> handleTouchEnd logging_callbacks 50
     \<lparr> touches = [], changedTouches = [\<lparr> clientX = 160, clientY = 160 \<rparr>] \<rparr>
     (\<lparr> touchStartX = 100, touchStartY = 100, touchEndX = 0, touchEndY = 0 \<rparr>, [])
   = Inr (\<lparr> touchStartX = 100, touchStartY = 100, touchEndX = 160, touchEndY = 160 \<rparr>, [''down''])"
proof -
  note d = handleTouchEnd_decision
             [where cbs = logging_callbacks and t = 50 and ts = "[]" and rest = "[]"
                and ?x0.0 = 100 and ?y0.0 = 100 and ex = 0 and ey = 0 and w = "[]"]
  from d [where ?x1.0 = 40 and ?y1.0 = 100] d [where ?x1.0 = 100 and ?y1.0 = 100]
       d [where ?x1.0 = 100 and ?y1.0 = 151] d [where ?x1.0 = 160 and ?y1.0 = 160]
  show ?thesis
    by (simp add: spec_decision_def spec_md_decision_def logging_callbacks_def optional_call_def)
qed

text \<open>An end event without a changed touch throws.\<close>

lemma handleTouchEnd_no_touch:
  "handleTouchEnd cbs t \<lparr> touches = ts, changedTouches = [] \<rparr> rw = Inl TypeError"
  by (simp add: handleTouchEnd_def)

text \<open>
  The decision table and the handler part only below zero: with a negative threshold a
  gesture that ends where it started calls the Up callback.
\<close>

lemma handleTouchEnd_negative_threshold:
  "handleTouchEnd logging_callbacks (- 1)
     \<lparr> touches = [], changedTouches = [\<lparr> clientX = 100, clientY = 100 \<rparr>] \<rparr>
     (\<lparr> touchStartX = 100, touchStartY = 100, touchEndX = 0, touchEndY = 0 \<rparr>, [])
   = Inr (\<lparr> touchStartX = 100, touchStartY = 100, touchEndX = 100, touchEndY = 100 \<rparr>, [''up''])"
  by (simp add: handleTouchEnd_def logging_callbacks_def optional_call_def)

section \<open>Properties of JSON.stringify and JSON.parse\<close>

subsection \<open>Numbers\<close>

lemma of_char_digit_char: "d < 10 \<Longrightarrow> (of_char (digit_char d) :: nat) = 48 + d"
  by (simp add: digit_char_def)

lemma is_digit_digit_char: "d < 10 \<Longrightarrow> is_digit (digit_char d)"
  by (simp add: is_digit_def of_char_digit_char)

lemma digit_val_digit_char: "d < 10 \<Longrightarrow> digit_val (digit_char d) = d"
  by (simp add: digit_val_def of_char_digit_char)

lemma digit_char_eq_zero: "d < 10 \<Longrightarrow> (digit_char d = CHR ''0'') = (d = 0)"
proof -
  assume d: "d < 10"
  have "(digit_char d = CHR ''0'') = ((of_char (digit_char d) :: nat) = of_char CHR ''0'')"
    by (simp only: of_char_eq_iff)
  with d show ?thesis by (simp add: of_char_digit_char)
qed

lemma string_of_nat_digits: "list_all is_digit (string_of_nat n)"
  by (induction n rule: string_of_nat.induct)
     (subst string_of_nat.simps, simp add: is_digit_digit_char)

lemma string_of_nat_nonempty: "string_of_nat n \<noteq> []"
  by (subst string_of_nat.simps) simp

lemma nat_of_digits_snoc: "nat_of_digits (ds @ [c]) = 10 * nat_of_digits ds + digit_val c"
  by (simp add: nat_of_digits_def)

lemma nat_of_digits_string_of_nat: "nat_of_digits (string_of_nat n) = n"
proof (induction n rule: string_of_nat.induct)
  case (1 n)
  show ?case
  proof (cases "n < 10")
    case True
    then show ?thesis
      by (subst string_of_nat.simps) (simp add: nat_of_digits_def digit_val_digit_char)
  next
    case False
    with 1 show ?thesis
      by (subst string_of_nat.simps) (simp add: nat_of_digits_snoc digit_val_digit_char)
  qed
qed

lemma hd_string_of_nat_zero: "(hd (string_of_nat n) = CHR ''0'') = (n = 0)"
proof (induction n rule: string_of_nat.induct)
  case (1 n)
  show ?case
  proof (cases "n < 10")
    case True
    then show ?thesis
      by (subst string_of_nat.simps) (simp add: digit_char_eq_zero)
  next
    case False
    then have "n div 10 \<noteq> 0" by simp
    with 1 False show ?thesis
      by (subst string_of_nat.simps) (simp add: string_of_nat_nonempty)
  qed
qed

lemma string_of_nat_no_leading_zero:
  "\<not> (length (string_of_nat n) > 1 \<and> starts_with CHR ''0'' (string_of_nat n))"
proof (cases "n = 0")
  case True
  then show ?thesis by (subst string_of_nat.simps) simp
next
  case False
  with hd_string_of_nat_zero [of n] show ?thesis
    by (cases "string_of_nat n") (simp_all add: starts_with_def)
qed

lemma takeWhile_digits:
  "number_end r \<Longrightarrow> takeWhile is_digit (string_of_nat n @ r) = string_of_nat n"
  using string_of_nat_digits [of n]
  by (cases r) (simp_all add: number_end_def takeWhile_append2 list_all_iff takeWhile_eq_all_conv)

lemma dropWhile_digits:
  "number_end r \<Longrightarrow> dropWhile is_digit (string_of_nat n @ r) = r"
  using string_of_nat_digits [of n]
  by (cases r) (simp_all add: number_end_def list_all_iff dropWhile_append3 dropWhile_append2)

lemma number_end_starts:
  "number_end r \<Longrightarrow> \<not> starts_with CHR ''.'' r \<and> \<not> starts_with CHR ''e'' r \<and> \<not> starts_with CHR ''E'' r"
  by (cases r) (auto simp: number_end_def starts_with_def)

lemma string_of_nat_first: "\<exists>d ds. string_of_nat n = d # ds \<and> is_digit d"
  using string_of_nat_digits [of n] string_of_nat_nonempty [of n]
  by (cases "string_of_nat n") simp_all

lemma parse_number_digits_of_int:
  assumes "number_end r" "\<bar>i\<bar> \<le> 2 ^ 53"
  shows "parse_number (digits_of_int i @ r) = Parsed (JNumber (Num i)) r"
proof (cases "i < 0")
  case True
  with assms(2) have "nat (- i) \<le> 2 ^ 53" "nat (- i) \<noteq> 0" by simp_all
  with True show ?thesis
    using assms(1) string_of_nat_no_leading_zero [of "nat (- i)"] number_end_starts [OF assms(1)]
    by (simp add: parse_number_def digits_of_int_def starts_with_def Let_def
        takeWhile_digits dropWhile_digits string_of_nat_nonempty nat_of_digits_string_of_nat)
next
  case False
  obtain d ds where d: "string_of_nat (nat i) = d # ds" "is_digit d"
    using string_of_nat_first by blast
  then have "d \<noteq> CHR ''-''" by (auto simp: is_digit_def)
  then have neg: "\<not> starts_with CHR ''-'' (string_of_nat (nat i) @ r)"
    by (simp add: d starts_with_def)
  from False assms(2) have "nat i \<le> 2 ^ 53" by simp
  with False show ?thesis
    using assms(1) string_of_nat_no_leading_zero [of "nat i"] number_end_starts [OF assms(1)] neg
    by (simp add: parse_number_def digits_of_int_def Let_def
        takeWhile_digits dropWhile_digits string_of_nat_nonempty nat_of_digits_string_of_nat)
qed

subsection \<open>Strings\<close>

lemma hex_val_hex_char: "d < 16 \<Longrightarrow> hex_val (hex_char d) = Some d"
  by (auto simp add: hex_val_def hex_char_def Let_def)

lemma parse_escape_control:
  assumes "n < 0x20"
  shows "parse_escape (CHR ''u'' # CHR ''0'' # CHR ''0'' # hex_char (n div 16) # hex_char (n mod 16) # r)
           = Parsed ([char_of n]) r"
proof -
  from assms have a: "n div 16 < 16" and b: "n mod 16 < 16" by simp_all
  have "hex4 [CHR ''0'', CHR ''0'', hex_char (n div 16), hex_char (n mod 16)] = Some n"
    by (simp add: hex4_def hex_val_hex_char [OF a] hex_val_hex_char [OF b]) (simp add: hex_val_def)
  with assms show ?thesis
    by (simp add: parse_escape_def utf8_def)
qed

lemma parse_chars_quote_char:
  "parse_chars (quote_char c @ s) acc = parse_chars s (acc @ [c])"
proof -
  consider (ctl) "c \<in> {CHR 0x08, CHR 0x09, CHR 0x0A, CHR 0x0C, CHR 0x0D}"
    | (q) "c = CHR 0x22" | (b) "c = CHR 0x5C"
    | (u) "c \<notin> {CHR 0x08, CHR 0x09, CHR 0x0A, CHR 0x0C, CHR 0x0D, CHR 0x22, CHR 0x5C}"
          "(of_char c :: nat) < 0x20"
    | (plain) "c \<notin> {CHR 0x08, CHR 0x09, CHR 0x0A, CHR 0x0C, CHR 0x0D, CHR 0x22, CHR 0x5C}"
          "\<not> (of_char c :: nat) < 0x20"
    by blast
  then show ?thesis
  proof cases
    case ctl
    then show ?thesis by (auto simp: quote_char_def parse_escape_def)
  next
    case q
    then show ?thesis by (simp add: quote_char_def parse_escape_def)
  next
    case b
    then show ?thesis by (simp add: quote_char_def parse_escape_def)
  next
    case u
    from parse_escape_control [OF u(2)] u show ?thesis
      by (simp add: quote_char_def)
  next
    case plain
    then show ?thesis by (simp add: quote_char_def)
  qed
qed

lemma parse_chars_body:
  "parse_chars (concat (map quote_char s) @ CHR 0x22 # r) acc = Parsed (acc @ s) r"
  by (induction s arbitrary: acc) (simp_all add: parse_chars_quote_char)

lemma parse_chars_Quote:
  "parse_chars (tl (QuoteJSONString s @ r)) [] = Parsed s r"
  using parse_chars_body [of s r "[]"] by (simp add: QuoteJSONString_def)

subsection \<open>Values\<close>

lemma value_end_number_end: "value_end r \<Longrightarrow> number_end r"
  by (cases r) (auto simp: value_end_def number_end_def starts_with_def is_digit_def)

lemma value_end_simps [simp]:
  "value_end []" "value_end (CHR '','' # r)" "value_end (CHR '']'' # r)" "value_end (CHR ''}'' # r)"
  by (simp_all add: value_end_def starts_with_def)

lemma skip_ws_value_end: "value_end r \<Longrightarrow> skip_ws r = r"
  by (cases r) (auto simp: value_end_def starts_with_def skip_ws_def is_ws_def)

lemma digits_of_int_first:
  "\<exists>c cs. digits_of_int i = c # cs \<and> (c = CHR ''-'' \<or> is_digit c)"
  using string_of_nat_first [of "nat i"] by (auto simp: digits_of_int_def)

lemma json_text_first: "\<exists>c cs. json_text v = c # cs \<and> value_start c"
proof (cases v)
  case (JNumber n)
  then show ?thesis
    using digits_of_int_first
    by (cases n) (auto simp: value_start_def is_ws_def is_digit_def, fastforce+)
qed (auto simp: value_start_def is_ws_def QuoteJSONString_def)

lemma skip_ws_stringify: "skip_ws (json_text v @ r) = json_text v @ r"
  using json_text_first [of v] by (auto simp: skip_ws_def value_start_def)

lemma not_close_stringify: "\<not> starts_with CHR '']'' (json_text v @ r)"
  using json_text_first [of v] by (auto simp: starts_with_def value_start_def)

lemma parse_value_atom_number:
  assumes "value_end r" "length (digits_of_int i) \<le> n" "\<bar>i\<bar> \<le> 2 ^ 53"
  shows "parse_value n (digits_of_int i @ r) = Parsed (JNumber (Num i)) r"
proof -
  obtain c cs where c: "digits_of_int i = c # cs" "c = CHR ''-'' \<or> is_digit c"
    using digits_of_int_first by blast
  with assms obtain m where n: "n = Suc m" by (cases n) auto
  from c have ws: "skip_ws (digits_of_int i @ r) = digits_of_int i @ r"
    by (auto simp: skip_ws_def is_ws_def is_digit_def)
  from c have neq: "c \<noteq> CHR ''[''" "c \<noteq> CHR ''{''" "c \<noteq> CHR 0x22"
    "c \<noteq> CHR ''n''" "c \<noteq> CHR ''t''" "c \<noteq> CHR ''f''"
    by (auto simp: is_digit_def)
  have "parse_value (Suc m) (digits_of_int i @ r) = parse_number (digits_of_int i @ r)"
    unfolding parse_value.simps ws Let_def by (simp add: c(1) neq starts_with_def)
  with n show ?thesis
    by (simp add: parse_number_digits_of_int [OF value_end_number_end [OF assms(1)] assms(3)])
qed

lemma parse_elements_join:
  assumes IH: "\<And>v r n. v \<in> set vs \<Longrightarrow> value_end r \<Longrightarrow> length (json_text v) \<le> n
                 \<Longrightarrow> parse_value n (json_text v @ r) = Parsed v r"
    and "vs \<noteq> []"
    and "length (join (map json_text vs)) < n"
  shows "parse_elements n (join (map json_text vs) @ CHR '']'' # r) = Parsed vs r"
  using assms(2,1,3)
proof (induction vs arbitrary: n rule: list_nonempty_induct)
  case (single v)
  then obtain m where n: "n = Suc m" and m: "length (json_text v) \<le> m"
    by (cases n) auto
  have "parse_value m (json_text v @ CHR '']'' # r) = Parsed v (CHR '']'' # r)"
    using single(1) [of v "CHR '']'' # r" m] m by simp
  then show ?case
    by (simp add: n skip_ws_value_end starts_with_def)
next
  case (cons v vs)
  from cons.hyps obtain w ws where vs: "vs = w # ws" by (cases vs) auto
  let ?tail = "join (map json_text vs) @ CHR '']'' # r"
  from cons.prems(2) vs obtain m where n: "n = Suc m"
    and m: "length (json_text v) \<le> m" "length (join (map json_text vs)) < m"
    by (cases n) auto
  have shape: "join (map json_text (v # vs)) @ CHR '']'' # r
                = json_text v @ CHR '','' # ?tail"
    by (simp add: vs)
  have "parse_value m (json_text v @ CHR '','' # ?tail) = Parsed v (CHR '','' # ?tail)"
    using cons.prems(1) [of v "CHR '','' # ?tail" m] m by simp
  moreover have "parse_elements m ?tail = Parsed vs r"
    using cons.IH [of m] cons.prems(1) m by simp
  ultimately show ?case
    unfolding shape n by (simp add: skip_ws_value_end starts_with_def)
qed

lemma member_text_first: "\<exists>cs. member_text kv = CHR 0x22 # cs"
  by (simp add: member_text_def QuoteJSONString_def)

lemma parse_members_join:
  assumes IH: "\<And>kv r n. kv \<in> set kvs \<Longrightarrow> value_end r \<Longrightarrow> length (json_text (snd kv)) \<le> n
                 \<Longrightarrow> parse_value n (json_text (snd kv) @ r) = Parsed (snd kv) r"
    and "kvs \<noteq> []"
    and "length (join (map member_text kvs)) < n"
  shows "parse_members n (join (map member_text kvs) @ CHR ''}'' # r) = Parsed kvs r"
  using assms(2,1,3)
proof (induction kvs arbitrary: n rule: list_nonempty_induct)
  case (single kv)
  then obtain m where n: "n = Suc m" and m: "length (json_text (snd kv)) \<le> m"
    by (cases n) (auto simp: member_text_def)
  have v: "parse_value m (json_text (snd kv) @ CHR ''}'' # r) = Parsed (snd kv) (CHR ''}'' # r)"
    using single(1) [of kv "CHR ''}'' # r" m] m by simp
  have k: "parse_chars (tl (QuoteJSONString (fst kv) @ CHR '':'' # json_text (snd kv) @ CHR ''}'' # r)) []
             = Parsed (fst kv) (CHR '':'' # json_text (snd kv) @ CHR ''}'' # r)"
    by (rule parse_chars_Quote)
  have q: "skip_ws (QuoteJSONString (fst kv) @ CHR '':'' # json_text (snd kv) @ CHR ''}'' # r)
            = QuoteJSONString (fst kv) @ CHR '':'' # json_text (snd kv) @ CHR ''}'' # r"
    "starts_with CHR 0x22 (QuoteJSONString (fst kv) @ CHR '':'' # json_text (snd kv) @ CHR ''}'' # r)"
    by (simp_all add: QuoteJSONString_def skip_ws_def is_ws_def starts_with_def)
  show ?case
    by (simp add: n member_text_def q k v skip_ws_value_end)
       (simp add: v skip_ws_def is_ws_def starts_with_def)
next
  case (cons kv kvs)
  from cons.hyps obtain w ws where kvs: "kvs = w # ws" by (cases kvs) auto
  let ?tail = "join (map member_text kvs) @ CHR ''}'' # r"
  have "length (join (map member_text (kv # kvs)))
          = length (member_text kv) + 1 + length (join (map member_text kvs))"
    by (simp add: kvs)
  moreover have "length (json_text (snd kv)) \<le> length (member_text kv)"
    by (simp add: member_text_def)
  ultimately have "length (json_text (snd kv)) < n"
    and "Suc (length (join (map member_text kvs))) < n"
    using cons.prems(2) by linarith+
  then obtain m where n: "n = Suc m"
    and m: "length (json_text (snd kv)) \<le> m" "length (join (map member_text kvs)) < m"
    by (cases n) auto
  have shape: "join (map member_text (kv # kvs)) @ CHR ''}'' # r
                = QuoteJSONString (fst kv) @ CHR '':'' # json_text (snd kv) @ CHR '','' # ?tail"
    by (simp add: kvs member_text_def)
  have v: "parse_value m (json_text (snd kv) @ CHR '','' # ?tail) = Parsed (snd kv) (CHR '','' # ?tail)"
    using cons.prems(1) [of kv "CHR '','' # ?tail" m] m by simp
  have rest: "parse_members m ?tail = Parsed kvs r"
    using cons.IH [of m] cons.prems(1) m by simp
  have k: "parse_chars (tl (QuoteJSONString (fst kv) @ CHR '':'' # json_text (snd kv) @ CHR '','' # ?tail)) []
             = Parsed (fst kv) (CHR '':'' # json_text (snd kv) @ CHR '','' # ?tail)"
    by (rule parse_chars_Quote)
  have q: "skip_ws (QuoteJSONString (fst kv) @ CHR '':'' # json_text (snd kv) @ CHR '','' # ?tail)
            = QuoteJSONString (fst kv) @ CHR '':'' # json_text (snd kv) @ CHR '','' # ?tail"
    "starts_with CHR 0x22 (QuoteJSONString (fst kv) @ CHR '':'' # json_text (snd kv) @ CHR '','' # ?tail)"
    by (simp_all add: QuoteJSONString_def skip_ws_def is_ws_def starts_with_def)
  show ?case
    unfolding shape n
    by (simp add: q k v rest skip_ws_value_end del: join.simps)
       (simp add: v rest skip_ws_def is_ws_def starts_with_def del: join.simps)
qed

lemma obj_put_fresh: "k \<notin> fst ` set obj \<Longrightarrow> obj_put obj k v = obj @ [(k, v)]"
  by (induction obj) auto

lemma make_object_acc:
  "distinct (map fst (acc @ kvs)) \<Longrightarrow>
     foldl (\<lambda>obj kv. obj_put obj (fst kv) (snd kv)) acc kvs = acc @ kvs"
proof (induction kvs arbitrary: acc)
  case Nil
  then show ?case by simp
next
  case (Cons kv kvs)
  from Cons.prems have "fst kv \<notin> fst ` set acc" by auto
  then have "obj_put acc (fst kv) (snd kv) = acc @ [kv]"
    by (simp add: obj_put_fresh)
  with Cons.IH [of "acc @ [kv]"] Cons.prems show ?case by simp
qed

lemma make_object_distinct: "distinct (map fst kvs) \<Longrightarrow> make_object kvs = kvs"
  using make_object_acc [of "[]" kvs] by (simp add: make_object_def)

lemma join_first: "xs \<noteq> [] \<Longrightarrow> \<exists>t. join xs = hd xs @ t"
  by (induction xs rule: join.induct) simp_all

lemma member_text_fun: "(\<lambda>kv. QuoteJSONString (fst kv) @ CHR '':'' # json_text (snd kv)) = member_text"
  by (rule ext) (simp add: member_text_def)

lemma parse_value_stringify:
  "json_safe v \<Longrightarrow> value_end r \<Longrightarrow> length (json_text v) \<le> n \<Longrightarrow>
     parse_value n (json_text v @ r) = Parsed v r"
proof (induction v arbitrary: r n)
  case JNull
  then obtain m where "n = Suc m" by (cases n) auto
  then show ?case by (simp add: skip_ws_def is_ws_def starts_with_def)
next
  case (JBool b)
  then obtain m where "n = Suc m" by (cases n; cases b) auto
  then show ?case by (cases b) (simp_all add: skip_ws_def is_ws_def starts_with_def)
next
  case (JNumber x)
  then show ?case by (cases x) (simp_all add: parse_value_atom_number)
next
  case (JString s)
  then obtain m where n: "n = Suc m" by (cases n) (auto simp: QuoteJSONString_def)
  have q: "skip_ws (QuoteJSONString s @ r) = QuoteJSONString s @ r"
    "starts_with CHR 0x22 (QuoteJSONString s @ r)"
    "\<not> starts_with CHR ''['' (QuoteJSONString s @ r)"
    "\<not> starts_with CHR ''{'' (QuoteJSONString s @ r)"
    by (simp_all add: QuoteJSONString_def skip_ws_def is_ws_def starts_with_def)
  show ?case by (simp add: n q parse_chars_Quote)
next
  case (JArray vs)
  then obtain m where n: "n = Suc m" and m: "length (join (map json_text vs)) < m"
    by (cases n) auto
  show ?case
  proof (cases "vs = []")
    case True
    then show ?thesis by (simp add: n skip_ws_def is_ws_def starts_with_def)
  next
    case False
    let ?body = "join (map json_text vs) @ CHR '']'' # r"
    from False obtain t where "join (map json_text vs) = json_text (hd vs) @ t"
      using join_first [of "map json_text vs"] by (auto simp: hd_map)
    then have open_: "\<not> starts_with CHR '']'' (skip_ws ?body)"
      by (simp add: skip_ws_stringify not_close_stringify)
    have "parse_elements m ?body = Parsed vs r"
    proof (rule parse_elements_join [OF _ False m])
      fix v r' k
      assume "v \<in> set vs" "value_end r'" "length (json_text v) \<le> k"
      with JArray.IH [of v r' k] JArray.prems(1)
      show "parse_value k (json_text v @ r') = Parsed v r'"
        by (simp add: list_all_iff)
    qed
    with open_ show ?thesis
      by (simp add: n skip_ws_def is_ws_def starts_with_def)
  qed
next
  case (JObject kvs)
  then obtain m where n: "n = Suc m" and m: "length (join (map member_text kvs)) < m"
    by (cases n) (auto simp: member_text_fun)
  show ?case
  proof (cases "kvs = []")
    case True
    then show ?thesis by (simp add: n skip_ws_def is_ws_def starts_with_def)
  next
    case False
    let ?body = "join (map member_text kvs) @ CHR ''}'' # r"
    from False obtain t where "join (map member_text kvs) = member_text (hd kvs) @ t"
      using join_first [of "map member_text kvs"] by (auto simp: hd_map)
    with member_text_first [of "hd kvs"] obtain cs where "?body = CHR 0x22 # cs"
      by auto
    then have open_: "\<not> starts_with CHR ''}'' (skip_ws ?body)"
      by (simp add: skip_ws_def is_ws_def starts_with_def)
    have "parse_members m ?body = Parsed kvs r"
    proof (rule parse_members_join [OF _ False m])
      fix kv r' k
      assume "kv \<in> set kvs" "value_end r'" "length (json_text (snd kv)) \<le> k"
      with JObject.IH [of kv "snd kv" r' k] JObject.prems(1)
      show "parse_value k (json_text (snd kv) @ r') = Parsed (snd kv) r'"
        by (cases kv) (fastforce simp add: list_all_iff)
    qed
    moreover from JObject.prems(1) have "\<not> list_ex (\<lambda>kv. is_array_index (fst kv)) kvs"
      by (simp add: list_all_iff list_ex_iff)
    ultimately show ?thesis using open_ JObject.prems(1)
      by (simp add: n member_text_fun make_object_distinct skip_ws_def is_ws_def starts_with_def)
  qed
qed

lemma json_safe_modelled: "json_safe v \<Longrightarrow> modelled v"
proof (induction v)
  case (JNumber x)
  then show ?case by (cases x) simp_all
next
  case (JArray vs)
  then show ?case by (simp add: list_all_iff)
next
  case (JObject kvs)
  have "modelled (snd kv)" if "kv \<in> set kvs" for kv
    using JObject.IH [of kv "snd kv"] JObject.prems that
    by (cases kv) (fastforce simp add: list_all_iff)
  with JObject.prems show ?case by (simp add: list_all_iff)
qed simp_all

lemma JSON_stringify_json_safe: "json_safe v \<Longrightarrow> JSON_stringify v = Some (json_text v)"
  by (simp add: JSON_stringify_def json_safe_modelled)

lemma JSON_parse_json_text: "json_safe v \<Longrightarrow> JSON_parse (json_text v) = Some (Inr v)"
  using parse_value_stringify [of v "[]" "Suc (length (json_text v))"]
  by (simp add: JSON_parse_def skip_ws_def)

lemma json_text_nonempty: "json_text v \<noteq> []"
  using json_text_first [of v] by auto

text \<open>Two texts, written and read; a value that does not come back; texts beyond the model.\<close>

lemma digit_char_numerals:
  "digit_char 0 = CHR ''0''" "digit_char 1 = CHR ''1''" "digit_char 2 = CHR ''2''"
  "digit_char 3 = CHR ''3''" "digit_char 4 = CHR ''4''" "digit_char 5 = CHR ''5''"
  "digit_char 6 = CHR ''6''" "digit_char 7 = CHR ''7''" "digit_char 8 = CHR ''8''"
  "digit_char 9 = CHR ''9''" "digit_char (Suc 0) = CHR ''1''"
  by (simp_all add: digit_char_def char_of_def bit_0 bit_Suc)

lemma stringify_example:
  "JSON_stringify (JObject [(''likes'', JNumber (Num (- 12))), (''tags'', JArray [JBool False, JNull])])
     = Some (''{'' @ [CHR 0x22] @ ''likes'' @ [CHR 0x22] @ '':-12,'' @ [CHR 0x22] @ ''tags'' @ [CHR 0x22]
       @ '':[false,null]}'')"
  by (simp add: JSON_stringify_def is_array_index_def is_digit_def
      QuoteJSONString_def quote_char_def digits_of_int_def string_of_nat.simps
      digit_char_numerals)

lemma parse_example:
  "JSON_parse ('' { '' @ [CHR 0x22] @ ''a'' @ [CHR 0x22] @ '' : [ 10 , true ] } '')
     = Some (Inr (JObject [(''a'', JArray [JNumber (Num 10), JBool True])]))"
  by (simp add: JSON_parse_def skip_ws_def is_ws_def starts_with_def parse_escape_def
      parse_number_def is_digit_def nat_of_digits_def digit_val_def make_object_def
      is_array_index_def Let_def)

lemma nan_is_written_as_null:
  "JSON_stringify (JNumber NaN) = Some ''null'' \<and> JSON_parse ''null'' = Some (Inr JNull)"
  by (simp add: JSON_stringify_def JSON_parse_def skip_ws_def is_ws_def starts_with_def)

lemma parse_beyond_the_model:
  "JSON_parse ''1.5'' = None \<and> JSON_parse ''1e3'' = None \<and> JSON_parse ''-0'' = None
   \<and> JSON_parse ''9007199254740993'' = None
   \<and> JSON_parse ''9007199254740992'' = Some (Inr (JNumber (Num 9007199254740992)))
   \<and> JSON_parse ''1.'' = Some (Inl SyntaxError) \<and> JSON_parse ''01'' = Some (Inl SyntaxError)"
  by (simp add: JSON_parse_def skip_ws_def is_ws_def starts_with_def
      parse_number_def is_digit_def nat_of_digits_def digit_val_def Let_def)


section \<open>Properties of the persistence hook\<close>

subsection \<open>The states that the operations reach\<close>

lemma counter_in_range_js_plus: "counter_in_range n \<Longrightarrow> counter_in_range (js_plus n 1)"
  using js_plus_one_saturates [of n] by (simp add: counter_in_range_def)

lemma level_in_range:
  assumes "0 \<le> l" "0 \<le> a"
  shows "0 \<le> min (js_plus l a) 100 \<and> min (js_plus l a) 100 \<le> 100"
proof -
  from assms have "0 \<le> round_double (l + a)" by (intro round_double_nonneg) simp
  then show ?thesis by (simp add: js_plus_def)
qed

lemma state_in_rangeI:
  assumes "state_in_range s"
    and "currentPhotoIndex t = currentPhotoIndex s"
    and "length (photos s) \<le> length (photos t)"
    and "list_all (\<lambda>p. counter_in_range (likes p)) (photos t)"
    and "0 \<le> naughtyLevel t" and "naughtyLevel t \<le> 100"
    and "counter_in_range (heartClicks t)"
  shows "state_in_range t"
proof -
  from assms(1) obtain i where i: "currentPhotoIndex s = Num i" "0 \<le> i" "i < int (length (photos s))"
    by (auto simp: state_in_range_def index_in_range_def split: jsnum.splits)
  with assms(3) have "i < int (length (photos t))" by simp
  moreover from this i(2) have "photos t \<noteq> []" by auto
  ultimately show ?thesis
    using assms(2,4-7) i by (simp add: state_in_range_def index_in_range_def)
qed

lemma state_in_range_likePhoto:
  assumes "state_in_range s"
  shows "state_in_range (likePhoto photoId s)"
proof (rule state_in_rangeI [OF assms])
  from assms have l: "0 \<le> naughtyLevel s" and h: "counter_in_range (heartClicks s)"
    and p: "list_all (\<lambda>p. counter_in_range (likes p)) (photos s)"
    by (simp_all add: state_in_range_def)
  from p show "list_all (\<lambda>p. counter_in_range (likes p)) (photos (likePhoto photoId s))"
    by (auto simp add: likePhoto_def Let_def list_all_iff counter_in_range_js_plus)
  from level_in_range [OF l, of 5]
  show "0 \<le> naughtyLevel (likePhoto photoId s)" "naughtyLevel (likePhoto photoId s) \<le> 100"
    by (simp_all add: likePhoto_def Let_def)
  from counter_in_range_js_plus [OF h] show "counter_in_range (heartClicks (likePhoto photoId s))"
    by (simp add: likePhoto_def Let_def)
qed (simp_all add: likePhoto_def Let_def)

lemma state_in_range_toggleFavorite:
  assumes "state_in_range s"
  shows "state_in_range (toggleFavorite photoId s)"
proof (rule state_in_rangeI [OF assms])
  from assms show "list_all (\<lambda>p. counter_in_range (likes p)) (photos (toggleFavorite photoId s))"
    by (auto simp add: toggleFavorite_def state_in_range_def list_all_iff)
qed (use assms in \<open>simp_all add: toggleFavorite_def state_in_range_def\<close>)

lemma state_in_range_changePhoto:
  assumes "state_in_range s"
  shows "state_in_range (changePhoto d s)"
proof -
  from assms have "index_in_range (changePhoto d s)"
    by (simp add: state_in_range_def changePhoto_in_range_any)
  moreover have "naughtyLevel (changePhoto d s) = naughtyLevel s"
    "heartClicks (changePhoto d s) = heartClicks s"
    by (simp_all add: changePhoto_def Let_def)
  ultimately show ?thesis using assms by (simp add: state_in_range_def)
qed

lemma state_in_range_addPhoto:
  assumes "state_in_range s"
  shows "state_in_range (snd (addPhoto newId photoData s))"
proof (rule state_in_rangeI [OF assms])
  from assms
  show "list_all (\<lambda>p. counter_in_range (likes p)) (photos (snd (addPhoto newId photoData s)))"
    by (simp add: addPhoto_def Let_def state_in_range_def counter_in_range_def)
qed (use assms in \<open>simp_all add: addPhoto_def Let_def state_in_range_def\<close>)

lemma state_in_range_increaseNaughtyLevel:
  assumes "state_in_range s" "issued (IncreaseNaughtyLevel amountArg)"
  shows "state_in_range (increaseNaughtyLevel amountArg s)"
proof (rule state_in_rangeI [OF assms(1)])
  from assms(1) have l: "0 \<le> naughtyLevel s" by (simp add: state_in_range_def)
  from assms(2) have "0 \<le> (case amountArg of None \<Rightarrow> 10 | Some a \<Rightarrow> a)"
    by (cases amountArg) simp_all
  from level_in_range [OF l this]
  show "0 \<le> naughtyLevel (increaseNaughtyLevel amountArg s)"
    "naughtyLevel (increaseNaughtyLevel amountArg s) \<le> 100"
    by (simp_all add: increaseNaughtyLevel_def Let_def)
qed (use assms(1) in \<open>simp_all add: increaseNaughtyLevel_def Let_def state_in_range_def\<close>)

lemma state_in_range_handleHeartClick:
  assumes "state_in_range s"
  shows "state_in_range (handleHeartClick s)"
proof (rule state_in_rangeI [OF assms])
  from assms have l: "0 \<le> naughtyLevel s" and h: "counter_in_range (heartClicks s)"
    by (simp_all add: state_in_range_def)
  from level_in_range [OF l, of 3]
  show "0 \<le> naughtyLevel (handleHeartClick s)" "naughtyLevel (handleHeartClick s) \<le> 100"
    by (simp_all add: handleHeartClick_def Let_def)
  from counter_in_range_js_plus [OF h] show "counter_in_range (heartClicks (handleHeartClick s))"
    by (simp add: handleHeartClick_def Let_def)
qed (use assms in \<open>simp_all add: handleHeartClick_def Let_def state_in_range_def\<close>)

lemma state_in_range_frame:
  assumes "state_in_range s"
    and "currentPhotoIndex t = currentPhotoIndex s" and "photos t = photos s"
    and "heartClicks t = heartClicks s"
    and "naughtyLevel t = naughtyLevel s \<or> naughtyLevel t = 0"
  shows "state_in_range t"
  using assms(1) by (rule state_in_rangeI) (use assms in \<open>auto simp add: state_in_range_def\<close>)

lemma state_in_range_apply_op:
  assumes "state_in_range s" "issued op"
  shows "state_in_range (apply_op op s)"
proof (cases op)
  case (NavigateTo v)
  have "state_in_range (snd (navigateTo v s))"
    using assms(1) by (rule state_in_range_frame) (simp_all add: navigateTo_def)
  with NavigateTo show ?thesis by simp
next
  case GoBack
  have "state_in_range (goBack s)"
    using assms(1) by (rule state_in_range_frame) (simp_all add: goBack_def Let_def)
  with GoBack show ?thesis by simp
next
  case (LikePhoto k)
  with assms(1) show ?thesis by (simp add: state_in_range_likePhoto)
next
  case (ToggleFavorite k)
  with assms(1) show ?thesis by (simp add: state_in_range_toggleFavorite)
next
  case (ChangePhoto d)
  with assms(1) show ?thesis by (simp add: state_in_range_changePhoto)
next
  case (AddPhoto k d)
  with assms(1) show ?thesis by (simp add: state_in_range_addPhoto)
next
  case (IncreaseNaughtyLevel a)
  with assms show ?thesis by (simp add: state_in_range_increaseNaughtyLevel)
next
  case ResetNaughtyLevel
  have "state_in_range (resetNaughtyLevel s)"
    using assms(1) by (rule state_in_range_frame) (simp_all add: resetNaughtyLevel_def)
  with ResetNaughtyLevel show ?thesis by simp
next
  case HandleHeartClick
  with assms(1) show ?thesis by (simp add: state_in_range_handleHeartClick)
next
  case HideConfetti
  have "state_in_range (hideConfetti s)"
    using assms(1) by (rule state_in_range_frame) (simp_all add: hideConfetti_def)
  with HideConfetti show ?thesis by simp
qed

lemma state_in_range_fold:
  "state_in_range s \<Longrightarrow> list_all issued ops \<Longrightarrow> state_in_range (fold apply_op ops s)"
  by (induction ops arbitrary: s) (simp_all add: state_in_range_apply_op)

lemma state_in_range_init: "state_in_range createInitialState"
  by (simp add: state_in_range_def index_in_range_def counter_in_range_def
      createInitialState_def ValentineModel_def)

subsection \<open>The object of a state\<close>

lemma property_names_not_indices:
  "\<not> is_array_index ''id''" "\<not> is_array_index ''url''" "\<not> is_array_index ''caption''"
  "\<not> is_array_index ''likes''" "\<not> is_array_index ''isFavorite''"
  "\<not> is_array_index ''currentView''" "\<not> is_array_index ''photos''"
  "\<not> is_array_index ''naughtyLevel''" "\<not> is_array_index ''heartClicks''"
  "\<not> is_array_index ''showConfetti''" "\<not> is_array_index ''currentPhotoIndex''"
  by (simp_all add: is_array_index_def is_digit_def)

lemma json_safe_js_of_photo: "counter_in_range (likes p) \<Longrightarrow> json_safe (js_of_photo p)"
  by (simp add: js_of_photo_def property_names_not_indices counter_in_range_def)

lemma json_safe_js_of_state:
  assumes "state_in_range s" "length (photos s) < 2 ^ 32"
  shows "json_safe (js_of_state s)"
proof -
  from assms(1) obtain i where i: "currentPhotoIndex s = Num i" "0 \<le> i" "i < int (length (photos s))"
    by (auto simp: state_in_range_def index_in_range_def split: jsnum.splits)
  from assms(2) have "int (length (photos s)) < 2 ^ 32"
    by (metis of_nat_less_iff of_nat_numeral of_nat_power)
  with i have "\<bar>i\<bar> \<le> 2 ^ 53" by simp
  moreover from assms(1) have "list_all json_safe (map js_of_photo (photos s))"
    by (simp add: state_in_range_def list_all_iff json_safe_js_of_photo)
  moreover from assms(1) have "\<bar>naughtyLevel s\<bar> \<le> 2 ^ 53" "\<bar>heartClicks s\<bar> \<le> 2 ^ 53"
    by (simp_all add: state_in_range_def counter_in_range_def)
  ultimately show ?thesis
    by (simp add: js_of_state_def i property_names_not_indices)
qed

lemma inj_js_of_photo: "inj js_of_photo"
  by (rule injI) (simp add: js_of_photo_def)

lemma inj_js_of_state: "inj js_of_state"
proof (rule injI)
  fix s t :: state
  assume "js_of_state s = js_of_state t"
  then have "currentView s = currentView t" "map js_of_photo (photos s) = map js_of_photo (photos t)"
    "naughtyLevel s = naughtyLevel t" "heartClicks s = heartClicks t"
    "showConfetti s = showConfetti t" "currentPhotoIndex s = currentPhotoIndex t"
    by (simp_all add: js_of_state_def)
  moreover from this(2) have "photos s = photos t"
    using inj_js_of_photo by (simp add: inj_map_eq_map)
  ultimately show "s = t" by simp
qed

subsection \<open>Writing and reading the state\<close>

lemma useLocalStorage_roundtrip:
  assumes "json_safe v"
  shows "useLocalStorage_effect localStorage key v = Some (localStorage (key \<mapsto> json_text v))"
    and "useLocalStorage_init (localStorage (key \<mapsto> json_text v)) key initialValue = Some v"
  using assms
  by (simp_all add: useLocalStorage_init_def useLocalStorage_effect_def json_text_nonempty
      JSON_stringify_json_safe JSON_parse_json_text)

text \<open>
  C9. Take a state that the operations of the controller reach from the default initial
  state, the amounts of \<open>increaseNaughtyLevel\<close> not negative (the views pass 10, 5 and 3)
  and the arguments otherwise arbitrary, with fewer than \<open>2^32\<close> photos (a JavaScript array
  has no more). Then \<open>JSON.stringify\<close> writes the state, and \<open>JSON.parse\<close> of the text
  returns the state: \<open>JSON.parse(JSON.stringify(s))\<close> is the object \<open>s\<close>. So the hook,
  started on a store into which its effect has written the state, starts with that state.
  Different states are different objects, so equal objects mean equal states.
\<close>

theorem persistence_roundtrip:
  "list_all issued ops \<Longrightarrow>
   length (photos (fold apply_op ops createInitialState)) < 2 ^ 32 \<Longrightarrow>
     JSON_stringify (js_of_state (fold apply_op ops createInitialState))
       = Some (json_text (js_of_state (fold apply_op ops createInitialState)))
   \<and> JSON_parse (json_text (js_of_state (fold apply_op ops createInitialState)))
       = Some (Inr (js_of_state (fold apply_op ops createInitialState)))
   \<and> useLocalStorage_effect localStorage key (js_of_state (fold apply_op ops createInitialState))
       = Some (localStorage (key \<mapsto> json_text (js_of_state (fold apply_op ops createInitialState))))
   \<and> useLocalStorage_init
        (localStorage (key \<mapsto> json_text (js_of_state (fold apply_op ops createInitialState))))
        key initialValue
       = Some (js_of_state (fold apply_op ops createInitialState))
   \<and> inj js_of_state"
proof -
  assume ops: "list_all issued ops"
    and len: "length (photos (fold apply_op ops createInitialState)) < 2 ^ 32"
  have "state_in_range (fold apply_op ops createInitialState)"
    using state_in_range_init ops by (rule state_in_range_fold)
  then have "json_safe (js_of_state (fold apply_op ops createInitialState))"
    using len by (rule json_safe_js_of_state)
  then show ?thesis
    by (simp add: JSON_stringify_json_safe JSON_parse_json_text useLocalStorage_roundtrip
        inj_js_of_state)
qed

lemma example_operations_state: "fold apply_op example_operations createInitialState = example_state"
  by (simp add: example_operations_def example_state_def createInitialState_def
      ValentineModel_def navigateTo_def validViews_def changePhoto_def likePhoto_def
      addPhoto_def isValidPhoto_def increaseNaughtyLevel_def handleHeartClick_def
      trunc_rem_def js_plus_def round_double_def)

theorem persistence_roundtrip_witness:
  "list_all issued example_operations
   \<and> length (photos example_state) < 2 ^ 32
   \<and> JSON_parse (json_text (js_of_state example_state)) = Some (Inr (js_of_state example_state))
   \<and> useLocalStorage_init
        (Map.empty (''valentine-app-state'' \<mapsto> json_text (js_of_state example_state)))
        ''valentine-app-state'' (js_of_state createInitialState)
     = Some (js_of_state example_state)"
proof -
  have h: "list_all issued example_operations" "length (photos example_state) < 2 ^ 32"
    by (simp_all add: example_operations_def example_state_def)
  from h(2) have "length (photos (fold apply_op example_operations createInitialState)) < 2 ^ 32"
    by (simp add: example_operations_state)
  from persistence_roundtrip
         [OF h(1) this, of Map.empty "''valentine-app-state''" "js_of_state createInitialState"]
       h
  show ?thesis by (simp add: example_operations_state)
qed

text \<open>
  The restriction to reachable states matters: a state without photos whose index is
  \<open>NaN\<close> is written with \<open>null\<close> for the index and read with \<open>null\<close>.
\<close>

lemma nan_index_is_not_restored:
  "JSON_parse (json_text (js_of_state (createInitialState \<lparr> photos := [], currentPhotoIndex := NaN \<rparr>)))
     = Some (Inr (JObject [(''currentView'', JString ''home''),
              (''photos'', JArray []),
              (''naughtyLevel'', JNumber (Num 0)),
              (''heartClicks'', JNumber (Num 0)),
              (''showConfetti'', JBool False),
              (''currentPhotoIndex'', JNull)]))"
  by (simp add: createInitialState_def ValentineModel_def js_of_state_def
      QuoteJSONString_def quote_char_def digits_of_int_def string_of_nat.simps
      digit_char_numerals is_array_index_def
      JSON_parse_def skip_ws_def is_ws_def starts_with_def parse_escape_def
      parse_number_def is_digit_def nat_of_digits_def digit_val_def make_object_def Let_def)

end
